theory Spec2Isabelle
  imports Complex_Main
begin

section \<open>Common values\<close>

text \<open>
  Every \<^verbatim>\<open>throw new Error(msg)\<close> of the sources is the value \<open>Error msg\<close>; a
  \<^verbatim>\<open>throw new TypeError(msg)\<close> is \<open>TypeError msg\<close>; \<open>ValidationError msg\<close> is the
  error with which Mongoose rejects a document.  A function that can throw
  (or an async function whose promise can reject) returns \<open>error + 'a\<close>, with
  \<open>Inl\<close> for the exception.
\<close>

datatype error = Error string | TypeError string | ValidationError string

text \<open>The \<^verbatim>\<open>message\<close> property of an exception.\<close>

fun message :: "error \<Rightarrow> string" where
  "message (Error m) = m"
| "message (TypeError m) = m"
| "message (ValidationError m) = m"

text \<open>
  \<^verbatim>\<open>Date.now()\<close> and the value of a \<^verbatim>\<open>Date\<close>: milliseconds since the epoch.
  The clock is an argument of every function that reads it.
\<close>

type_synonym time = int

text \<open>
  \<^verbatim>\<open>Number.prototype.toString\<close> on an integral number, as a template literal
  applies it: decimal digits, most significant first, a minus sign for a
  negative number.  \<open>digit_char\<close> is only ever applied to a number below 10.
\<close>

definition digit_char :: "nat \<Rightarrow> char" where
  "digit_char d = ''0123456789'' ! d"

fun toString_nat :: "nat \<Rightarrow> string" where
  "toString_nat n =
     (if n < 10 then [digit_char n] else toString_nat (n div 10) @ [digit_char (n mod 10)])"

text \<open>The equation of \<open>toString_nat\<close> mentions itself: it is unfolded by hand.\<close>

declare toString_nat.simps [simp del]

definition toString :: "int \<Rightarrow> string" where
  "toString i = (if i < 0 then CHR ''-'' # toString_nat (nat (- i)) else toString_nat (nat i))"

text \<open>\<^verbatim>\<open>Array.prototype.join(sep)\<close> on an array of strings.\<close>

fun join :: "string \<Rightarrow> string list \<Rightarrow> string" where
  "join sep [] = []"
| "join sep [x] = x"
| "join sep (x # y # ys) = x @ sep @ join sep (y # ys)"

section \<open>JavaScript numbers\<close>

text \<open>
  A \<^verbatim>\<open>Number\<close> is an IEEE 754 double.  A finite double is held as the real
  number it stands for, and each arithmetic operation is the exact operation
  followed by rounding to the nearest double, ties to the even significand.
  \<open>NaN\<close>, the infinities and the sign of zero are not modelled, nor is
  overflow: the operations below are only applied where the exact result is
  far below the largest double.
\<close>

text \<open>The number of binary digits of a natural number.\<close>

fun bitlen :: "nat \<Rightarrow> nat" where
  "bitlen n = (if n = 0 then 0 else Suc (bitlen (n div 2)))"

text \<open>The equation of \<open>bitlen\<close> mentions itself: it is unfolded by hand.\<close>

declare bitlen.simps [simp del]

text \<open>
  The binary exponent of a number other than zero: the \<open>e\<close> with
  \<open>2 ^ e \<le> \<bar>x\<bar> < 2 ^ (e + 1)\<close>.
\<close>

definition exponent :: "real \<Rightarrow> int" where
  "exponent x =
     (if 1 \<le> \<bar>x\<bar> then int (bitlen (nat \<lfloor>\<bar>x\<bar>\<rfloor>)) - 1
      else - int (bitlen (nat (\<lceil>1 / \<bar>x\<bar>\<rceil> - 1))))"

text \<open>Rounding to the nearest integer, a tie going to the even one.\<close>

definition round_half_even :: "real \<Rightarrow> int" where
  "round_half_even t =
     (let f = \<lfloor>t\<rfloor>; d = t - of_int f
      in if d < 1 / 2 then f else if 1 / 2 < d then f + 1 else if even f then f else f + 1)"

text \<open>
  The spacing of the doubles around \<open>x\<close>: 52 binary places below the
  exponent, and \<open>2 ^ - 1074\<close> in the subnormal range.
\<close>

definition quantum :: "real \<Rightarrow> real" where
  "quantum x = 2 powi (max (exponent x) (- 1022) - 52)"

definition to_double :: "real \<Rightarrow> real" where
  "to_double x = (if x = 0 then 0 else of_int (round_half_even (x / quantum x)) * quantum x)"

text \<open>A real number is a double if rounding leaves it as it is.\<close>

definition is_double :: "real \<Rightarrow> bool" where
  "is_double x = (to_double x = x)"

text \<open>The operators \<^verbatim>\<open>+\<close> and \<^verbatim>\<open>*\<close> on numbers.\<close>

definition js_add :: "real \<Rightarrow> real \<Rightarrow> real" where
  "js_add a b = to_double (a + b)"

definition js_mul :: "real \<Rightarrow> real \<Rightarrow> real" where
  "js_mul a b = to_double (a * b)"

section \<open>userSchema.js: the account-security fields and methods\<close>

subsection \<open>Constants\<close>

definition SALT_ROUNDS :: nat where
  "SALT_ROUNDS = 12"

definition CODE_EXPIRATION_MINUTES :: int where
  "CODE_EXPIRATION_MINUTES = 15"

definition MAX_FAILED_ATTEMPTS :: real where
  "MAX_FAILED_ATTEMPTS = 5"

definition ACCOUNT_LOCK_DURATION_MS :: int where
  "ACCOUNT_LOCK_DURATION_MS = 15 * 60 * 1000"

subsection \<open>The document\<close>

text \<open>
  One user document.  A field the schema leaves optional is an \<open>option\<close>
  (\<open>None\<close> is \<^verbatim>\<open>undefined\<close>).  \<open>failedLoginAttempts\<close> is a schema
  \<^verbatim>\<open>Number\<close>, a finite double.  \<open>isModified_passwordHash\<close> is what
  \<^verbatim>\<open>this.isModified("passwordHash")\<close> answers, the document's own change
  tracking.
\<close>

record user =
  email :: string
  passwordHash :: string
  role :: string
  firstname :: string
  lastname :: string
  isVerified :: bool
  verifyCode :: "string option"
  verifyCodeExpiresAt :: "time option"
  failedLoginAttempts :: real
  lockUntil :: "time option"
  resetCode :: "string option"
  resetCodeExpiresAt :: "time option"
  lastLoginAt :: "time option"
  isModified_passwordHash :: bool

subsection \<open>Codes\<close>

text \<open>
  \<^verbatim>\<open>generateCode\<close>.  The two results of \<^verbatim>\<open>Math.random()\<close> are the arguments
  \<open>r1\<close> and \<open>r2\<close>, doubles in \<open>[0, 1)\<close>.  The product is rounded, then the
  sum; \<^verbatim>\<open>Math.floor\<close> is exact.
\<close>

definition generateCode :: "real \<Rightarrow> real \<Rightarrow> string" where
  "generateCode r1 r2 =
     (let part1 = toString \<lfloor>js_add 100 (js_mul r1 900)\<rfloor>;
          part2 = toString \<lfloor>js_add 100 (js_mul r2 900)\<rfloor>
      in part1 @ ''-'' @ part2)"

text \<open>The schema's \<^verbatim>\<open>match: /^\d{3}-\d{3}$/\<close> on \<open>verifyCode\<close> and \<open>resetCode\<close>.\<close>

definition is_digit :: "char \<Rightarrow> bool" where
  "is_digit c = (c \<in> set ''0123456789'')"

fun matches_code_format :: "string \<Rightarrow> bool" where
  "matches_code_format [a, b, c, d, e, f, g] =
     (is_digit a \<and> is_digit b \<and> is_digit c \<and> d = CHR ''-'' \<and>
      is_digit e \<and> is_digit f \<and> is_digit g)"
| "matches_code_format _ = False"

subsection \<open>Instance methods\<close>

text \<open>
  \<^verbatim>\<open>isAccountLocked\<close>: \<^verbatim>\<open>!!this.lockUntil && this.lockUntil > Date.now()\<close>.
  A \<^verbatim>\<open>Date\<close> object is truthy, so the first conjunct says that the field is set.
\<close>

definition isAccountLocked :: "time \<Rightarrow> user \<Rightarrow> bool" where
  "isAccountLocked now u = (case lockUntil u of None \<Rightarrow> False | Some t \<Rightarrow> t > now)"

definition resetLock :: "user \<Rightarrow> user" where
  "resetLock u = u\<lparr>failedLoginAttempts := 0, lockUntil := None\<rparr>"

definition incrementLoginAttempts :: "time \<Rightarrow> user \<Rightarrow> user" where
  "incrementLoginAttempts now u =
     (let u1 = u\<lparr>failedLoginAttempts := js_add (failedLoginAttempts u) 1\<rparr>
      in if failedLoginAttempts u1 \<ge> MAX_FAILED_ATTEMPTS
         then u1\<lparr>lockUntil := Some (now + ACCOUNT_LOCK_DURATION_MS)\<rparr>
         else u1)"

text \<open>Both generators return the code and the updated document.\<close>

definition generateVerifyCode :: "real \<Rightarrow> real \<Rightarrow> time \<Rightarrow> user \<Rightarrow> string \<times> user" where
  "generateVerifyCode r1 r2 now u =
     (let code = generateCode r1 r2
      in (code, u\<lparr>verifyCode := Some code,
                   verifyCodeExpiresAt := Some (now + CODE_EXPIRATION_MINUTES * 60 * 1000)\<rparr>))"

definition generateResetCode :: "real \<Rightarrow> real \<Rightarrow> time \<Rightarrow> user \<Rightarrow> string \<times> user" where
  "generateResetCode r1 r2 now u =
     (let code = generateCode r1 r2
      in (code, u\<lparr>resetCode := Some code,
                   resetCodeExpiresAt := Some (now + CODE_EXPIRATION_MINUTES * 60 * 1000)\<rparr>))"

subsection \<open>Password hashing\<close>

text \<open>
  The \<^verbatim>\<open>bcrypt\<close> package is not part of the repository: its three functions
  that the schema calls are a parameter.  \<^verbatim>\<open>genSalt\<close> and \<^verbatim>\<open>hash\<close> are
  asynchronous and may reject; \<^verbatim>\<open>compare\<close> resolves to a boolean.
\<close>

record bcrypt =
  bcrypt_genSalt :: "nat \<Rightarrow> error + string"
  bcrypt_hash :: "string \<Rightarrow> string \<Rightarrow> error + string"
  bcrypt_compare :: "string \<Rightarrow> string \<Rightarrow> bool"

definition verifyPassword :: "bcrypt \<Rightarrow> string \<Rightarrow> user \<Rightarrow> bool" where
  "verifyPassword bc candidatePassword u = bcrypt_compare bc candidatePassword (passwordHash u)"

text \<open>
  The \<^verbatim>\<open>pre("save")\<close> hook.  \<open>Inr\<close> is \<^verbatim>\<open>next()\<close> with the document as the
  hook leaves it, \<open>Inl err\<close> is \<^verbatim>\<open>next(err)\<close>.
\<close>

definition pre_save :: "bcrypt \<Rightarrow> user \<Rightarrow> error + user" where
  "pre_save bc u =
     (if \<not> isModified_passwordHash u then Inr u
      else case bcrypt_genSalt bc SALT_ROUNDS of
             Inl err \<Rightarrow> Inl err
           | Inr salt \<Rightarrow>
               (case bcrypt_hash bc (passwordHash u) salt of
                  Inl err \<Rightarrow> Inl err
                | Inr h \<Rightarrow> Inr (u\<lparr>passwordHash := h\<rparr>)))"

text \<open>
  \<^verbatim>\<open>document.save()\<close> as the schema sees it.  Mongoose validates the document
  against the schema before any \<^verbatim>\<open>pre("save")\<close> hook runs; the validation is
  the argument \<open>validate\<close>, which answers the message of the
  \<open>ValidationError\<close> if there is one.  A failed validation rejects the save
  before the hook; an error passed to \<^verbatim>\<open>next\<close> rejects it too; in both
  cases nothing is stored.  Otherwise the document is stored as the hook left
  it and its change tracking is reset.
\<close>

definition save :: "bcrypt \<Rightarrow> (user \<Rightarrow> string option) \<Rightarrow> user \<Rightarrow> error + user" where
  "save bc validate u =
     (case validate u of
        Some msg \<Rightarrow> Inl (ValidationError msg)
      | None \<Rightarrow>
          (case pre_save bc u of
             Inl err \<Rightarrow> Inl err
           | Inr u' \<Rightarrow> Inr (u'\<lparr>isModified_passwordHash := False\<rparr>)))"

subsection \<open>Sequences of account-security operations\<close>

text \<open>
  The methods of the schema and the save, as one operation type; each operation
  comes with the clock reading at its call.  A save that is rejected leaves the
  document in memory as it was.
\<close>

datatype security_op =
    VerifyPassword string
  | IsAccountLocked
  | ResetLock
  | IncrementLoginAttempts
  | GenerateVerifyCode real real
  | GenerateResetCode real real
  | Save

fun apply_op ::
  "bcrypt \<Rightarrow> (user \<Rightarrow> string option) \<Rightarrow> time \<times> security_op \<Rightarrow> user \<Rightarrow> user" where
  "apply_op bc validate (now, VerifyPassword c) u = u"
| "apply_op bc validate (now, IsAccountLocked) u = u"
| "apply_op bc validate (now, ResetLock) u = resetLock u"
| "apply_op bc validate (now, IncrementLoginAttempts) u = incrementLoginAttempts now u"
| "apply_op bc validate (now, GenerateVerifyCode r1 r2) u = snd (generateVerifyCode r1 r2 now u)"
| "apply_op bc validate (now, GenerateResetCode r1 r2) u = snd (generateResetCode r1 r2 now u)"
| "apply_op bc validate (now, Save) u =
     (case save bc validate u of Inl err \<Rightarrow> u | Inr u' \<Rightarrow> u')"

fun run_ops ::
  "bcrypt \<Rightarrow> (user \<Rightarrow> string option) \<Rightarrow> (time \<times> security_op) list \<Rightarrow> user \<Rightarrow> user" where
  "run_ops bc validate [] u = u"
| "run_ops bc validate (x # xs) u = run_ops bc validate xs (apply_op bc validate x u)"

definition count_increments :: "(time \<times> security_op) list \<Rightarrow> nat" where
  "count_increments ops = length (filter (\<lambda>x. snd x = IncrementLoginAttempts) ops)"

subsection \<open>Operations the specification names and the sources do not have\<close>

datatype security_error = AccountLockedError | CodeExpiredError | CodeMismatchError

text \<open>
  Modelled from the spec: \<^verbatim>\<open>authenticate\<close> is not in the sources.  The
  specification (4.4): it fails with \<open>AccountLockedError\<close> if the account is
  locked; otherwise it verifies the password; on success it resets the lockout
  counters and updates \<open>lastLoginAt\<close>; on failure it increments
  \<open>failedLoginAttempts\<close> and locks at the threshold.  Each step is the schema
  method of that name.
\<close>

definition authenticate :: "bcrypt \<Rightarrow> time \<Rightarrow> string \<Rightarrow> user \<Rightarrow> (security_error + bool) \<times> user" where
  "authenticate bc now candidate u =
     (if isAccountLocked now u then (Inl AccountLockedError, u)
      else if verifyPassword bc candidate u
           then (Inr True, (resetLock u)\<lparr>lastLoginAt := Some now\<rparr>)
           else (Inr False, incrementLoginAttempts now u))"

text \<open>
  Modelled from the spec: \<^verbatim>\<open>consumeVerifyCode\<close> and \<^verbatim>\<open>consumeResetCode\<close> are
  not in the sources.  The specification (4.4, 8): the call succeeds only if the
  candidate equals the stored code and the current time is before its expiry;
  on success the code is cleared and, for verify, the account becomes verified;
  it fails with \<open>CodeMismatchError\<close> or \<open>CodeExpiredError\<close> accordingly; a
  second attempt with a consumed code fails with mismatch, not expiry.
\<close>

definition consumeVerifyCode :: "time \<Rightarrow> string \<Rightarrow> user \<Rightarrow> security_error + user" where
  "consumeVerifyCode now candidate u =
     (case verifyCode u of
        None \<Rightarrow> Inl CodeMismatchError
      | Some code \<Rightarrow>
          if candidate \<noteq> code then Inl CodeMismatchError
          else (case verifyCodeExpiresAt u of
                  None \<Rightarrow> Inl CodeExpiredError
                | Some expiry \<Rightarrow>
                    if now < expiry
                    then Inr (u\<lparr>verifyCode := None, isVerified := True\<rparr>)
                    else Inl CodeExpiredError))"

definition consumeResetCode :: "time \<Rightarrow> string \<Rightarrow> user \<Rightarrow> security_error + user" where
  "consumeResetCode now candidate u =
     (case resetCode u of
        None \<Rightarrow> Inl CodeMismatchError
      | Some code \<Rightarrow>
          if candidate \<noteq> code then Inl CodeMismatchError
          else (case resetCodeExpiresAt u of
                  None \<Rightarrow> Inl CodeExpiredError
                | Some expiry \<Rightarrow>
                    if now < expiry
                    then Inr (u\<lparr>resetCode := None\<rparr>)
                    else Inl CodeExpiredError))"

section \<open>mongoDatabase.js and mongoModel.js: the per-tenant model registry\<close>

text \<open>
  A \<^verbatim>\<open>MongoDatabase\<close>.  \<open>models\<close> is the dictionary \<^verbatim>\<open>this.models\<close> that the
  class inherits from \<^verbatim>\<open>BaseDatabase\<close>, from model names to compiled models
  (objects, hence truthy when present).  \<open>mongooseConnection\<close> is the private
  field, \<open>None\<close> while it is \<^verbatim>\<open>undefined\<close>.  Mongoose is not part of the
  repository: a connection is given by what its \<^verbatim>\<open>model(name, schema)\<close> method
  answers, the compiled model or the exception it throws.
\<close>

record ('s, 'm) connection =
  conn_name :: string
  conn_model :: "string \<Rightarrow> 's \<Rightarrow> error + 'm"

record ('s, 'm) mongoDatabase =
  models :: "string \<rightharpoonup> 'm"
  mongooseConnection :: "('s, 'm) connection option"

text \<open>
  \<^verbatim>\<open>registerModel\<close>.  The result pairs the outcome with the database object as
  the call leaves it.  Calling \<^verbatim>\<open>model\<close> on an undefined connection is the
  engine's \<open>TypeError\<close>.
\<close>

definition registerModel ::
  "string \<Rightarrow> 's \<Rightarrow> ('s, 'm) mongoDatabase \<Rightarrow> (error + unit) \<times> ('s, 'm) mongoDatabase" where
  \<open>registerModel name schema db =
     (if models db name \<noteq> None
      then (Inl (Error (''Model "'' @ name @ ''" already registered for tenant.'')), db)
      else case mongooseConnection db of
             None \<Rightarrow>
               (Inl (TypeError ''Cannot read properties of undefined (reading 'model')''), db)
           | Some c \<Rightarrow>
               (case conn_model c name schema of
                  Inl err \<Rightarrow> (Inl err, db)
                | Inr model \<Rightarrow> (Inr (), db\<lparr>models := (models db)(name \<mapsto> model)\<rparr>)))\<close>

text \<open>
  Modelled from the spec: \<^verbatim>\<open>BaseDatabase.getModel\<close>, to which
  \<^verbatim>\<open>MongoDatabase.getModel\<close> delegates, is not in the sources.  The
  specification (4.2): \<open>get(name)\<close> answers the registered model or absent.
\<close>

definition getModel :: "string \<Rightarrow> ('s, 'm) mongoDatabase \<Rightarrow> 'm option" where
  "getModel name db = models db name"

text \<open>
  The constructor of the model base class in \<^verbatim>\<open>mongoModel.js\<close>, from the
  schema check on.  \<open>schema\<close> is what the subclass's \<^verbatim>\<open>schema()\<close> returned
  (\<open>None\<close> for a falsy or non-object value), \<open>modelName\<close> is \<^verbatim>\<open>this.name\<close>,
  \<open>className\<close> is \<^verbatim>\<open>this.constructor.name\<close> and \<open>db\<close> is \<^verbatim>\<open>this.db\<close>.  The
  result carries the underlying model the instance keeps.
\<close>

definition mongoModel_constructor ::
  "string \<Rightarrow> string \<Rightarrow> 's option \<Rightarrow> ('s, 'm) mongoDatabase \<Rightarrow>
     (error + 'm option) \<times> ('s, 'm) mongoDatabase" where
  \<open>mongoModel_constructor className modelName schema db =
     (case schema of
        None \<Rightarrow>
          (Inl (Error (''Missing or invalid schema in "'' @ className @ ''". '' @
                       ''Subclasses must override the schema() method.'')), db)
      | Some s \<Rightarrow>
          (if models db modelName = None
           then (case registerModel modelName s db of
                   (Inl err, db') \<Rightarrow> (Inl err, db')
                 | (Inr _, db') \<Rightarrow> (Inr (getModel modelName db'), db'))
           else (Inr (getModel modelName db), db)))\<close>

section \<open>The store and the host system\<close>

text \<open>
  The MongoDB server, its drivers, \<^verbatim>\<open>zyx-system\<close> and \<^verbatim>\<open>zyx-schema\<close> are not
  part of the repository.  What the sources do with them is kept in a \<open>world\<close>
  that every function takes and returns.
\<close>

text \<open>
  An index as \<^verbatim>\<open>collection.indexes()\<close> lists it: the key document (field
  names with their direction), the name and, on a TTL index,
  \<open>expireAfterSeconds\<close>.
\<close>

record index =
  idx_key :: "(string \<times> int) list"
  idx_name :: string
  expireAfterSeconds :: "int option"

text \<open>
  A collection: whether it is capped, with its size in bytes and its maximal
  number of documents, and its indexes.
\<close>

record collection =
  capped :: bool
  coll_size :: "int option"
  coll_max :: "int option"
  indexes :: "index list"

text \<open>The calls that reach the server, in the order they are made.\<close>

datatype call =
    Connect string
  | ListCollections string
  | CreateCollection string "(int \<times> int) option"
  | Indexes string
  | CreateIndex string index
  | Collections
  | Drop string

text \<open>
  \<open>db\<close> is the database behind the connection string, its collections by name
  in the order the server lists them.  \<open>connect_error\<close> is the message of the
  error with which connecting fails, if it does; \<open>drop_error\<close> names the
  collections whose \<^verbatim>\<open>drop()\<close> fails and the message.  Every other call is
  taken to succeed on a connected server.  \<open>syslog\<close> collects what goes to
  \<^verbatim>\<open>system.debug\<close> and \<^verbatim>\<open>system.log\<close>, each line with its level.
\<close>

record world =
  db :: "(string \<times> collection) list"
  connect_error :: "string option"
  drop_error :: "string \<Rightarrow> string option"
  calls :: "call list"
  syslog :: "(string \<times> string) list"

record system =
  isDebugging :: bool
  isTesting :: bool

definition sys_log :: "string \<Rightarrow> string \<Rightarrow> world \<Rightarrow> world" where
  "sys_log level msg w = w\<lparr>syslog := syslog w @ [(level, msg)]\<rparr>"

definition call_made :: "call \<Rightarrow> world \<Rightarrow> world" where
  "call_made c w = w\<lparr>calls := calls w @ [c]\<rparr>"

subsection \<open>Driver calls\<close>

text \<open>\<^verbatim>\<open>MongoClient.connect(url)\<close> and \<^verbatim>\<open>createConnection(url).asPromise()\<close>.\<close>

definition mongo_connect :: "string \<Rightarrow> world \<Rightarrow> (error + unit) \<times> world" where
  "mongo_connect url w =
     (case connect_error w of
        Some msg \<Rightarrow> (Inl (Error msg), call_made (Connect url) w)
      | None \<Rightarrow> (Inr (), call_made (Connect url) w))"

text \<open>\<^verbatim>\<open>db.listCollections({ name }).toArray()\<close>: the collections of that name.\<close>

definition listCollections :: "string \<Rightarrow> world \<Rightarrow> (string \<times> collection) list \<times> world" where
  "listCollections name w =
     (filter (\<lambda>(n, c). n = name) (db w), call_made (ListCollections name) w)"

text \<open>
  \<^verbatim>\<open>db.createCollection(name, options)\<close>: a new collection carries the default
  index on \<^verbatim>\<open>_id\<close>.  \<open>opts\<close> is the pair of \<^verbatim>\<open>size\<close> and \<^verbatim>\<open>max\<close> of a capped
  collection.
\<close>

definition id_index :: index where
  "id_index = \<lparr>idx_key = [(''_id'', 1)], idx_name = ''_id_'', expireAfterSeconds = None\<rparr>"

definition createCollection :: "string \<Rightarrow> (int \<times> int) option \<Rightarrow> world \<Rightarrow> world" where
  "createCollection name opts w =
     (let c = (case opts of
                 None \<Rightarrow> \<lparr>capped = False, coll_size = None, coll_max = None, indexes = [id_index]\<rparr>
               | Some (sz, mx) \<Rightarrow>
                   \<lparr>capped = True, coll_size = Some sz, coll_max = Some mx, indexes = [id_index]\<rparr>)
      in (call_made (CreateCollection name opts) w)\<lparr>db := db w @ [(name, c)]\<rparr>)"

text \<open>\<^verbatim>\<open>collection.indexes()\<close>; the server refuses a namespace it does not have.\<close>

definition collection_indexes :: "string \<Rightarrow> world \<Rightarrow> (error + index list) \<times> world" where
  "collection_indexes name w =
     (case map_of (db w) name of
        None \<Rightarrow> (Inl (Error (''ns does not exist: '' @ name)), call_made (Indexes name) w)
      | Some c \<Rightarrow> (Inr (indexes c), call_made (Indexes name) w))"

text \<open>\<^verbatim>\<open>collection.createIndex(key, options)\<close>: the index is added to the collection.\<close>

definition createIndex :: "string \<Rightarrow> index \<Rightarrow> world \<Rightarrow> world" where
  "createIndex name i w =
     (call_made (CreateIndex name i) w)
       \<lparr>db := map (\<lambda>(n, c). if n = name then (n, c\<lparr>indexes := indexes c @ [i]\<rparr>) else (n, c)) (db w)\<rparr>"

text \<open>
  \<^verbatim>\<open>collection.drop()\<close>: it fails with \<open>drop_error\<close> where that is set and with
  \<^verbatim>\<open>ns not found\<close> on a collection that is no longer there; otherwise the
  collection is gone.
\<close>

definition drop_collection :: "string \<Rightarrow> world \<Rightarrow> (error + unit) \<times> world" where
  "drop_collection name w =
     (let w1 = call_made (Drop name) w
      in case drop_error w name of
           Some msg \<Rightarrow> (Inl (Error msg), w1)
         | None \<Rightarrow>
             if map_of (db w) name = None then (Inl (Error ''ns not found''), w1)
             else (Inr (), w1\<lparr>db := filter (\<lambda>(n, c). n \<noteq> name) (db w)\<rparr>))"

subsection \<open>JavaScript truthiness of the optional settings\<close>

definition truthy_bool :: "bool option \<Rightarrow> bool" where
  "truthy_bool b = (b = Some True)"

definition truthy_num :: "int option \<Rightarrow> bool" where
  "truthy_num n = (case n of None \<Rightarrow> False | Some k \<Rightarrow> k \<noteq> 0)"

text \<open>\<^verbatim>\<open>regex.test(s)\<close> for a pattern without metacharacters: \<open>pat\<close> occurs in \<open>s\<close>.\<close>

definition occurs_in :: "string \<Rightarrow> string \<Rightarrow> bool" where
  "occurs_in pat s = list_ex (\<lambda>i. take (length pat) (drop i s) = pat) [0..<Suc (length s)]"

section \<open>createLog.js\<close>

text \<open>
  The validated configuration.  \<^verbatim>\<open>new Schema({...}).validate(tenant)\<close> belongs
  to \<^verbatim>\<open>zyx-schema\<close>: the validation is the argument \<open>validate\<close>, from the
  tenant to the validated values and the messages of the errors found.
\<close>

record log_config =
  db_url :: string
  log_collection_name :: string
  log_expiration_days :: "int option"
  log_capped :: "bool option"
  log_max_size :: "int option"
  log_max_docs :: "int option"

text \<open>The Winston logger that is returned: its level and its transports.\<close>

datatype transport = Console | MongoDB string string string

record logger =
  logger_level :: string
  transports :: "transport list"

text \<open>
  The options of the capped collection, when
  \<^verbatim>\<open>log_capped && log_max_size && log_max_docs\<close> holds: the size converted from
  megabytes to bytes, and the maximal number of documents.
\<close>

definition capped_options :: "log_config \<Rightarrow> (int \<times> int) option" where
  "capped_options v =
     (if truthy_bool (log_capped v) \<and> truthy_num (log_max_size v) \<and> truthy_num (log_max_docs v)
      then (case (log_max_size v, log_max_docs v) of
              (Some sz, Some mx) \<Rightarrow> Some (sz * 1024 * 1024, mx)
            | _ \<Rightarrow> None)
      else None)"

text \<open>Lines 65 to 91: create the collection if it does not exist.\<close>

definition ensure_collection :: "system \<Rightarrow> log_config \<Rightarrow> world \<Rightarrow> world" where
  "ensure_collection sys v w =
     (let (collections, w1) = listCollections (log_collection_name v) w
      in if length collections = 0
         then (case capped_options v of
                 Some opts \<Rightarrow>
                   (let w2 = createCollection (log_collection_name v) (Some opts) w1
                    in if isDebugging sys
                       then sys_log ''debug'' (''Created capped collection: '' @ log_collection_name v) w2
                       else w2)
               | None \<Rightarrow>
                   (let w2 = createCollection (log_collection_name v) None w1
                    in if isDebugging sys
                       then sys_log ''debug'' (''Created standard collection: '' @ log_collection_name v) w2
                       else w2))
         else if isDebugging sys
              then sys_log ''debug'' (''Collection already exists: '' @ log_collection_name v) w1
              else w1)"

text \<open>
  The test of line 98:
  \<^verbatim>\<open>indexes.some(i => i.key?.timestamp === 1 && i.name === "timestamp_ttl")\<close>.
\<close>

definition ttlExists :: "index list \<Rightarrow> bool" where
  "ttlExists idxs =
     list_ex (\<lambda>i. map_of (idx_key i) ''timestamp'' = Some 1 \<and> idx_name i = ''timestamp_ttl'') idxs"

definition ttl_index :: "int \<Rightarrow> index" where
  "ttl_index days =
     \<lparr>idx_key = [(''timestamp'', 1)], idx_name = ''timestamp_ttl'',
      expireAfterSeconds = Some (days * 86400)\<rparr>"

text \<open>Lines 93 to 120: set the TTL index up if TTL logging is enabled.\<close>

definition ensure_ttl_index :: "system \<Rightarrow> log_config \<Rightarrow> world \<Rightarrow> (error + unit) \<times> world" where
  "ensure_ttl_index sys v w =
     (if \<not> truthy_bool (log_capped v) \<and> truthy_num (log_expiration_days v)
      then (case log_expiration_days v of
              None \<Rightarrow> (Inr (), w)
            | Some days \<Rightarrow>
                (case collection_indexes (log_collection_name v) w of
                   (Inl err, w1) \<Rightarrow> (Inl err, w1)
                 | (Inr idxs, w1) \<Rightarrow>
                     if \<not> ttlExists idxs
                     then (let w2 = createIndex (log_collection_name v) (ttl_index days) w1
                           in (Inr (),
                               if isDebugging sys
                               then sys_log ''debug''
                                      (''Created TTL index 'timestamp_ttl' for '' @ toString days @ '' days'') w2
                               else w2))
                     else (Inr (),
                           if isDebugging sys
                           then sys_log ''debug'' ''TTL index 'timestamp_ttl' already exists'' w1
                           else w1)))
      else (Inr (), w))"

text \<open>The body of the \<^verbatim>\<open>try\<close> block, lines 60 to 149.\<close>

definition createLog_try :: "system \<Rightarrow> log_config \<Rightarrow> world \<Rightarrow> (error + logger) \<times> world" where
  \<open>createLog_try sys v w =
     (case mongo_connect (db_url v) w of
        (Inl err, w1) \<Rightarrow> (Inl err, w1)
      | (Inr _, w1) \<Rightarrow>
          (case ensure_ttl_index sys v (ensure_collection sys v w1) of
             (Inl err, w3) \<Rightarrow> (Inl err, w3)
           | (Inr _, w3) \<Rightarrow>
               (Inr \<lparr>logger_level = ''info'',
                     transports = [Console, MongoDB (db_url v) (log_collection_name v) ''info'']\<rparr>,
                if isDebugging sys
                then sys_log ''info'' (''Logger created for "'' @ db_url v @ ''"'') w3
                else w3)))\<close>

text \<open>
  \<^verbatim>\<open>createLog\<close>: the validation, the check that capped and TTL are not used
  together, the \<^verbatim>\<open>try\<close> block, and the \<^verbatim>\<open>catch\<close> that logs and rethrows.
\<close>

definition createLog ::
  "system \<Rightarrow> ('t \<Rightarrow> log_config \<times> string list) \<Rightarrow> 't \<Rightarrow> world \<Rightarrow> (error + logger) \<times> world" where
  "createLog sys validate tenant w =
     (let (validated, errors) = validate tenant
      in if length errors > 0 then (Inl (Error (join '', '' errors)), w)
         else if truthy_bool (log_capped validated) \<and> truthy_num (log_expiration_days validated)
         then (Inl (Error ''Cannot use both capped and TTL options on the same collection.''), w)
         else (case createLog_try sys validated w of
                 (Inl err, w') \<Rightarrow>
                   (Inl (Error (message err)),
                    if isDebugging sys
                    then sys_log ''error'' (message err) (sys_log ''debug'' (message err) w')
                    else w')
               | (Inr lg, w') \<Rightarrow> (Inr lg, w')))"

section \<open>createDB.js\<close>

text \<open>The connection that \<^verbatim>\<open>createDB\<close> returns, by the address it is open on.\<close>

datatype db_connection = Connection string

text \<open>The loop of \<^verbatim>\<open>dropAllCollections\<close> over the collections listed.\<close>

fun drop_each :: "string list \<Rightarrow> world \<Rightarrow> world" where
  "drop_each [] w = w"
| "drop_each (n # ns) w =
     drop_each ns
       (case drop_collection n w of
          (Inr _, w1) \<Rightarrow> sys_log ''info'' (''Dropped collection: '' @ n) w1
        | (Inl err, w1) \<Rightarrow>
            if message err \<noteq> ''ns not found'' \<and>
               \<not> occurs_in ''a background operation is currently running'' (message err)
            then sys_log ''warn'' (''Failed to drop collection '' @ n @ '': '' @ message err) w1
            else w1)"

definition dropAllCollections :: "world \<Rightarrow> world" where
  "dropAllCollections w = drop_each (map fst (db w)) (call_made Collections w)"

text \<open>
  The body of the \<^verbatim>\<open>try\<close> block of \<^verbatim>\<open>createDB\<close>.  The handler registered for
  \<^verbatim>\<open>disconnected\<close> runs only when that event arrives and is left out.
\<close>

definition createDB_try :: "system \<Rightarrow> string \<Rightarrow> world \<Rightarrow> (error + db_connection) \<times> world" where
  \<open>createDB_try sys url w =
     (case mongo_connect url w of
        (Inl err, w1) \<Rightarrow> (Inl err, w1)
      | (Inr _, w1) \<Rightarrow>
          (let w2 = (if isDebugging sys
                     then sys_log ''info'' (''Database connected to "'' @ url @ ''"'') w1
                     else w1);
               w3 = (if isTesting sys then dropAllCollections w2 else w2)
           in (Inr (Connection url), w3)))\<close>

text \<open>
  \<^verbatim>\<open>createDB\<close>.  \<open>validate\<close> is the validation of \<^verbatim>\<open>zyx-schema\<close> against the
  one-field schema, from the tenant to the validated \<^verbatim>\<open>db_url\<close> and the
  messages of the errors found.
\<close>

definition createDB ::
  "system \<Rightarrow> ('t \<Rightarrow> string \<times> string list) \<Rightarrow> 't \<Rightarrow> world \<Rightarrow> (error + db_connection) \<times> world" where
  "createDB sys validate tenant w =
     (let (url, errors) = validate tenant
      in if length errors > 0 then (Inl (Error (join '', '' errors)), w)
         else (case createDB_try sys url w of
                 (Inl err, w') \<Rightarrow>
                   (Inl (Error (''Failed to connect to database: '' @ message err)),
                    if isDebugging sys
                    then sys_log ''error''
                           (''Database connection error: ('' @ url @ '') '' @ message err) w'
                    else w')
               | (Inr c, w') \<Rightarrow> (Inr c, w')))"

section \<open>mongoLog.js\<close>

text \<open>
  A stored log entry, and the world a \<^verbatim>\<open>MongoLog\<close> writes to: the entries of
  its collection, the message with which \<^verbatim>\<open>insertOne\<close> fails (if it does), and
  the console.  A console line is the method of \<^verbatim>\<open>BaseLog\<close> that was reached
  with its arguments; the line of \<^verbatim>\<open>assert\<close> has the expression, by its truth
  value, in front of the other arguments.
\<close>

datatype console_line = Line string "string list" | Assert_line bool "string list"

record log_entry =
  entry_level :: string
  entry_message :: string
  entry_meta :: "(string \<times> string) list"
  createdAt :: time

record log_world =
  stored :: "log_entry list"
  insert_error :: "string option"
  console :: "console_line list"

text \<open>
  The fields of the instance that the log methods read: \<^verbatim>\<open>_logToConsole\<close>, and
  whether the private \<^verbatim>\<open>#collection\<close> is set, as it is between \<^verbatim>\<open>connect\<close>
  and \<^verbatim>\<open>disconnect\<close>.
\<close>

record mongoLog =
  logToConsole :: bool
  has_collection :: bool

text \<open>\<^verbatim>\<open>_insertLog\<close>; \<open>now\<close> is the \<^verbatim>\<open>new Date()\<close> of the entry.\<close>

definition insertLog ::
  "mongoLog \<Rightarrow> string \<Rightarrow> string \<Rightarrow> (string \<times> string) list \<Rightarrow> time \<Rightarrow> log_world \<Rightarrow>
     (error + unit) \<times> log_world" where
  "insertLog ml level msg meta now w =
     (if \<not> has_collection ml then (Inl (Error ''MongoLog is not connected to the database.''), w)
      else (let entry = \<lparr>entry_level = level, entry_message = msg, entry_meta = meta, createdAt = now\<rparr>
            in case insert_error w of
                 Some m \<Rightarrow> (Inl (Error m), w)
               | None \<Rightarrow> (Inr (), w\<lparr>stored := stored w @ [entry]\<rparr>)))"

text \<open>The call of the console method of the base class, \<^verbatim>\<open>super.info(...args)\<close>.\<close>

definition super_log :: "string \<Rightarrow> string list \<Rightarrow> log_world \<Rightarrow> log_world" where
  "super_log method args w = w\<lparr>console := console w @ [Line method args]\<rparr>"

text \<open>\<^verbatim>\<open>super.assert(expression, ...args)\<close>.\<close>

definition super_assert :: "bool \<Rightarrow> string list \<Rightarrow> log_world \<Rightarrow> log_world" where
  "super_assert expression args w = w\<lparr>console := console w @ [Assert_line expression args]\<rparr>"

text \<open>
  The six methods \<^verbatim>\<open>debug\<close>, \<^verbatim>\<open>error\<close>, \<^verbatim>\<open>info\<close>, \<^verbatim>\<open>log\<close>, \<^verbatim>\<open>trace\<close> and
  \<^verbatim>\<open>warn\<close> have one body, up to the level: the arguments (as the strings
  \<^verbatim>\<open>String\<close> makes of them) are joined by a space, the entry is inserted and
  awaited, and then the console method is called if \<^verbatim>\<open>_logToConsole\<close> is set.
  An exception of the insert leaves the method at the \<^verbatim>\<open>await\<close>.
\<close>

definition log_method ::
  "string \<Rightarrow> mongoLog \<Rightarrow> string list \<Rightarrow> time \<Rightarrow> log_world \<Rightarrow> (error + unit) \<times> log_world" where
  "log_method level ml args now w =
     (let msg = join '' '' args
      in case insertLog ml level msg [] now w of
           (Inl err, w1) \<Rightarrow> (Inl err, w1)
         | (Inr _, w1) \<Rightarrow> (Inr (), if logToConsole ml then super_log level args w1 else w1))"

definition log_debug :: "mongoLog \<Rightarrow> string list \<Rightarrow> time \<Rightarrow> log_world \<Rightarrow> (error + unit) \<times> log_world" where
  "log_debug = log_method ''debug''"

definition log_error :: "mongoLog \<Rightarrow> string list \<Rightarrow> time \<Rightarrow> log_world \<Rightarrow> (error + unit) \<times> log_world" where
  "log_error = log_method ''error''"

definition log_info :: "mongoLog \<Rightarrow> string list \<Rightarrow> time \<Rightarrow> log_world \<Rightarrow> (error + unit) \<times> log_world" where
  "log_info = log_method ''info''"

definition log_log :: "mongoLog \<Rightarrow> string list \<Rightarrow> time \<Rightarrow> log_world \<Rightarrow> (error + unit) \<times> log_world" where
  "log_log = log_method ''log''"

definition log_trace :: "mongoLog \<Rightarrow> string list \<Rightarrow> time \<Rightarrow> log_world \<Rightarrow> (error + unit) \<times> log_world" where
  "log_trace = log_method ''trace''"

definition log_warn :: "mongoLog \<Rightarrow> string list \<Rightarrow> time \<Rightarrow> log_world \<Rightarrow> (error + unit) \<times> log_world" where
  "log_warn = log_method ''warn''"

text \<open>
  \<^verbatim>\<open>assert(expression, ...args)\<close>; \<open>expression\<close> is the truth value of the first
  argument.  The entry is written only when the expression is falsy, with the
  message joined from the other arguments; the console method is reached on
  both branches, with the expression and the other arguments.
\<close>

definition log_assert ::
  "mongoLog \<Rightarrow> bool \<Rightarrow> string list \<Rightarrow> time \<Rightarrow> log_world \<Rightarrow> (error + unit) \<times> log_world" where
  "log_assert ml expression args now w =
     (if \<not> expression
      then (let msg = join '' '' args
            in case insertLog ml ''assert'' msg [] now w of
                 (Inl err, w1) \<Rightarrow> (Inl err, w1)
               | (Inr _, w1) \<Rightarrow>
                   (Inr (), if logToConsole ml then super_assert expression args w1 else w1))
      else if logToConsole ml then (Inr (), super_assert expression args w)
      else (Inr (), w))"

section \<open>Example values\<close>

text \<open>Concrete inputs on which the theorems below are instantiated.\<close>

definition example_user :: user where
  "example_user =
     \<lparr>email = ''ann@example.org'', passwordHash = ''secret'', role = ''user'',
      firstname = ''Ann'', lastname = ''Lee'', isVerified = False,
      verifyCode = Some ''123-456'', verifyCodeExpiresAt = Some 5000,
      failedLoginAttempts = 4, lockUntil = None,
      resetCode = Some ''654-321'', resetCodeExpiresAt = Some 7000,
      lastLoginAt = None, isModified_passwordHash = True\<rparr>"

text \<open>
  A stand-in for \<^verbatim>\<open>bcrypt\<close>: the hash of a password is the password behind a
  marker character, and \<open>compare\<close> accepts exactly that.  \<open>accept_document\<close> is
  a validation that finds no error.
\<close>

definition accept_document :: "user \<Rightarrow> string option" where
  "accept_document u = None"

definition example_bcrypt :: bcrypt where
  "example_bcrypt =
     \<lparr>bcrypt_genSalt = (\<lambda>rounds. Inr ''salt''),
      bcrypt_hash = (\<lambda>pw salt. Inr (CHR ''#'' # pw)),
      bcrypt_compare = (\<lambda>pw h. h = CHR ''#'' # pw)\<rparr>"

text \<open>A tenant database with one model registered, on a connection that compiles every schema.\<close>

definition example_connection :: "(string, string \<times> string) connection" where
  "example_connection = \<lparr>conn_name = ''tenant1'', conn_model = (\<lambda>name schema. Inr (name, schema))\<rparr>"

definition example_database :: "(string, string \<times> string) mongoDatabase" where
  "example_database =
     \<lparr>models = [''user'' \<mapsto> (''user'', ''userSchema'')],
      mongooseConnection = Some example_connection\<rparr>"

text \<open>A connected log with console mirroring, and a store whose insert fails.\<close>

definition example_log :: mongoLog where
  "example_log = \<lparr>logToConsole = True, has_collection = True\<rparr>"

definition failing_store :: log_world where
  "failing_store = \<lparr>stored = [], insert_error = Some ''connection lost'', console = []\<rparr>"

definition working_store :: log_world where
  "working_store = \<lparr>stored = [], insert_error = None, console = []\<rparr>"

text \<open>
  A host system in test mode, a server with two collections that accepts every
  call, and a validation that reports an empty address or collection name.
\<close>

definition example_system :: system where
  "example_system = \<lparr>isDebugging = False, isTesting = True\<rparr>"

definition plain_collection :: collection where
  "plain_collection = \<lparr>capped = False, coll_size = None, coll_max = None, indexes = [id_index]\<rparr>"

definition example_world :: world where
  "example_world =
     \<lparr>db = [(''users'', plain_collection), (''sessions'', plain_collection)],
      connect_error = None, drop_error = (\<lambda>n. None), calls = [], syslog = []\<rparr>"

definition example_validate :: "log_config \<Rightarrow> log_config \<times> string list" where
  "example_validate t =
     (t, (if db_url t = [] then [''db_url is required''] else []) @
         (if log_collection_name t = [] then [''log_collection_name is required''] else []))"

definition ttl_tenant :: log_config where
  "ttl_tenant =
     \<lparr>db_url = ''mongodb://localhost/app'', log_collection_name = ''logs'',
      log_expiration_days = Some 30, log_capped = None,
      log_max_size = None, log_max_docs = None\<rparr>"

definition conflicting_tenant :: log_config where
  "conflicting_tenant =
     \<lparr>db_url = ''mongodb://localhost/app'', log_collection_name = ''logs'',
      log_expiration_days = Some 30, log_capped = Some True,
      log_max_size = Some 10, log_max_docs = Some 1000\<rparr>"

definition example_validate_url :: "string \<Rightarrow> string \<times> string list" where
  "example_validate_url t = (t, if t = [] then [''db_url is required''] else [])"




section \<open>Properties of the number arithmetic\<close>

text \<open>
  The binary exponent brackets its argument, rounding does not cross a multiple
  of the spacing, and so rounding keeps a number between two doubles that
  bracket it.
\<close>

lemma bitlen_bounds: "0 < n \<Longrightarrow> 2 ^ (bitlen n - 1) \<le> n \<and> n < 2 ^ bitlen n"
proof (induction n rule: bitlen.induct)
  case (1 n)
  show ?case
  proof (cases "n div 2 = 0")
    case True
    with "1.prems" have "n = 1" by presburger
    then show ?thesis by (simp add: bitlen.simps)
  next
    case False
    let ?b = "bitlen (n div 2)"
    have ih: "2 ^ (?b - 1) \<le> n div 2 \<and> n div 2 < 2 ^ ?b"
      using "1.IH" "1.prems" False by simp
    have b: "bitlen n = Suc ?b" using "1.prems" by (subst bitlen.simps) simp
    have pos: "0 < ?b" using False by (subst bitlen.simps) simp
    then have "(2::nat) ^ ?b = 2 * 2 ^ (?b - 1)" by (cases ?b) simp_all
    with ih have lo: "2 ^ ?b \<le> n" by presburger
    from ih have "n < 2 * 2 ^ ?b" by presburger
    with lo b show ?thesis by simp
  qed
qed

lemma less_pow2_real: "(n::nat) < 2 ^ b \<Longrightarrow> real n + 1 \<le> 2 ^ b"
proof -
  assume "n < 2 ^ b"
  then have "Suc n \<le> 2 ^ b" by (rule Suc_leI)
  then have "real (Suc n) \<le> real (2 ^ b)" by (rule of_nat_mono)
  then show ?thesis by simp
qed

lemma pow2_le_real: "2 ^ b \<le> (n::nat) \<Longrightarrow> (2::real) ^ b \<le> real n"
proof -
  assume "2 ^ b \<le> n"
  then have "real (2 ^ b) \<le> real n" by (rule of_nat_mono)
  then show ?thesis by simp
qed

lemma bitlen_pos: "0 < n \<Longrightarrow> 0 < bitlen n"
  by (subst bitlen.simps) simp

lemma exponent_bounds:
  assumes "x \<noteq> 0"
  shows "2 powi exponent x \<le> \<bar>x\<bar> \<and> \<bar>x\<bar> < 2 powi (exponent x + 1)"
proof (cases "1 \<le> \<bar>x\<bar>")
  case True
  let ?n = "nat \<lfloor>\<bar>x\<bar>\<rfloor>"
  let ?b = "bitlen ?n"
  have n: "0 < ?n" using True by simp
  have e: "exponent x = int ?b - 1" using True by (simp add: exponent_def)
  have bp: "0 < ?b" using n by (rule bitlen_pos)
  from bitlen_bounds [OF n] have lo: "2 ^ (?b - 1) \<le> ?n" and hi: "?n < 2 ^ ?b" by simp_all
  have "real ?n \<le> \<bar>x\<bar>" using True by simp
  moreover have "(2::real) ^ (?b - 1) \<le> real ?n"
    using lo by (rule pow2_le_real)
  ultimately have 1: "(2::real) ^ (?b - 1) \<le> \<bar>x\<bar>" by linarith
  have "\<bar>x\<bar> < real ?n + 1" using True by linarith
  moreover have "real ?n + 1 \<le> 2 ^ ?b"
    using hi by (rule less_pow2_real)
  ultimately have 2: "\<bar>x\<bar> < (2::real) ^ ?b" by linarith
  have p1: "(2::real) powi (int ?b - 1) = 2 ^ (?b - 1)"
    using bp by (simp add: power_int_def nat_diff_distrib')
  have p2: "(2::real) powi (int ?b - 1 + 1) = 2 ^ ?b" by simp
  show ?thesis using 1 2 by (simp only: e p1 p2)
next
  case False
  let ?m = "nat (\<lceil>1 / \<bar>x\<bar>\<rceil> - 1)"
  let ?b = "bitlen ?m"
  have ax: "0 < \<bar>x\<bar>" "\<bar>x\<bar> < 1" using assms False by simp_all
  then have inv: "1 < 1 / \<bar>x\<bar>" by simp
  then have c: "2 \<le> \<lceil>1 / \<bar>x\<bar>\<rceil>" by linarith
  then have m: "0 < ?m" by linarith
  have e: "exponent x = - int ?b" using False by (simp add: exponent_def)
  have bp: "0 < ?b" using m by (rule bitlen_pos)
  from bitlen_bounds [OF m] have lo: "2 ^ (?b - 1) \<le> ?m" and hi: "?m < 2 ^ ?b" by simp_all
  have k0: "0 \<le> \<lceil>1 / \<bar>x\<bar>\<rceil> - 1" using c by linarith
  have "real ?m = of_int (\<lceil>1 / \<bar>x\<bar>\<rceil> - 1)" using k0 by (rule of_nat_nat)
  then have rm: "real ?m = of_int \<lceil>1 / \<bar>x\<bar>\<rceil> - 1" by (simp only: of_int_diff of_int_1)
  have m1: "real ?m < 1 / \<bar>x\<bar>" unfolding rm by linarith
  have m2: "1 / \<bar>x\<bar> \<le> real ?m + 1" unfolding rm by linarith
  have hi': "real ?m + 1 \<le> 2 ^ ?b"
    using hi by (rule less_pow2_real)
  have lo': "(2::real) ^ (?b - 1) \<le> real ?m"
    using lo by (rule pow2_le_real)
  have "1 / \<bar>x\<bar> \<le> 2 ^ ?b" using m2 hi' by linarith
  then have 1: "1 / 2 ^ ?b \<le> \<bar>x\<bar>"
    using ax by (simp add: field_simps)
  have "(2::real) ^ (?b - 1) < 1 / \<bar>x\<bar>" using m1 lo' by linarith
  then have 2: "\<bar>x\<bar> < 1 / 2 ^ (?b - 1)"
    using ax by (simp add: field_simps)
  have p1: "(2::real) powi (- int ?b) = 1 / 2 ^ ?b"
    by (simp add: power_int_minus_divide)
  have "- int ?b + 1 = - int (?b - 1)" using bp by simp
  then have p2: "(2::real) powi (- int ?b + 1) = 1 / 2 ^ (?b - 1)"
    by (simp only: power_int_minus_divide power_int_of_nat)
  show ?thesis using 1 2 by (simp only: e p1 p2)
qed

lemma exponent_less:
  assumes "x \<noteq> 0" "\<bar>x\<bar> < 2 powi k"
  shows "exponent x < k"
proof (rule ccontr)
  assume "\<not> exponent x < k"
  then have "k \<le> exponent x" by simp
  then have "(2::real) powi k \<le> 2 powi exponent x" by (rule power_int_increasing) simp
  with exponent_bounds [OF assms(1)] assms(2) show False by linarith
qed

lemma exponent_ge:
  assumes "x \<noteq> 0" "2 powi k \<le> \<bar>x\<bar>"
  shows "k \<le> exponent x"
proof (rule ccontr)
  assume "\<not> k \<le> exponent x"
  then have "exponent x + 1 \<le> k" by simp
  then have "(2::real) powi (exponent x + 1) \<le> 2 powi k" by (rule power_int_increasing) simp
  with exponent_bounds [OF assms(1)] assms(2) show False by linarith
qed

lemma exponent_mono:
  assumes "x \<noteq> 0" "\<bar>x\<bar> \<le> \<bar>t\<bar>"
  shows "exponent x \<le> exponent t"
proof -
  have t: "t \<noteq> 0" using assms by auto
  have "2 powi exponent x \<le> \<bar>t\<bar>" using exponent_bounds [OF assms(1)] assms(2) by linarith
  then show ?thesis by (rule exponent_ge [OF t])
qed


lemma round_half_even_lower: "of_int n \<le> t \<Longrightarrow> n \<le> round_half_even t"
proof -
  assume "of_int n \<le> t"
  then have "n \<le> \<lfloor>t\<rfloor>" by (simp add: le_floor_iff)
  then show ?thesis by (simp add: round_half_even_def Let_def)
qed

lemma round_half_even_upper_half: "t < of_int n + 1 / 2 \<Longrightarrow> round_half_even t \<le> n"
proof -
  assume a: "t < of_int n + 1 / 2"
  then have f: "\<lfloor>t\<rfloor> \<le> n" by linarith
  show ?thesis
  proof (cases "\<lfloor>t\<rfloor> = n")
    case True
    then have "t - of_int \<lfloor>t\<rfloor> < 1 / 2" using a by simp
    then show ?thesis using True by (simp add: round_half_even_def Let_def)
  next
    case False
    with f have "\<lfloor>t\<rfloor> + 1 \<le> n" by simp
    then show ?thesis by (simp add: round_half_even_def Let_def)
  qed
qed

lemma round_half_even_upper: "t \<le> of_int n \<Longrightarrow> round_half_even t \<le> n"
  by (rule round_half_even_upper_half) simp

lemma round_half_even_of_int: "round_half_even (of_int n) = n"
  by (simp add: round_half_even_def)

lemma quantum_pos: "0 < quantum x"
  by (simp add: quantum_def)

lemma to_double_lower:
  assumes "of_int n * quantum x \<le> x"
  shows "of_int n * quantum x \<le> to_double x"
proof (cases "x = 0")
  case True
  with assms show ?thesis by (simp add: to_double_def)
next
  case False
  have "of_int n \<le> x / quantum x"
    using assms quantum_pos [of x] by (simp add: field_simps)
  then have "n \<le> round_half_even (x / quantum x)" by (rule round_half_even_lower)
  then have "of_int n * quantum x \<le> of_int (round_half_even (x / quantum x)) * quantum x"
    using quantum_pos [of x] by (simp add: mult_right_mono)
  then show ?thesis using False by (simp add: to_double_def)
qed

lemma to_double_upper_half:
  assumes "x < (of_int n + 1 / 2) * quantum x"
  shows "to_double x \<le> of_int n * quantum x"
proof (cases "x = 0")
  case True
  with assms quantum_pos [of x] have "0 \<le> of_int n * quantum x"
  proof -
    from True assms have "0 < (of_int n + 1 / 2) * quantum x" by simp
    then have "0 < (of_int n :: real) + 1 / 2"
      using quantum_pos [of x] by (simp add: zero_less_mult_iff)
    then have "0 \<le> n" by linarith
    then show ?thesis using quantum_pos [of x] by simp
  qed
  with True show ?thesis by (simp add: to_double_def)
next
  case False
  have "x / quantum x < of_int n + 1 / 2"
    using assms quantum_pos [of x] by (simp add: field_simps)
  then have "round_half_even (x / quantum x) \<le> n" by (rule round_half_even_upper_half)
  then have "of_int (round_half_even (x / quantum x)) * quantum x \<le> of_int n * quantum x"
    using quantum_pos [of x] by (simp add: mult_right_mono)
  then show ?thesis using False by (simp add: to_double_def)
qed

lemma to_double_upper:
  assumes "x \<le> of_int n * quantum x"
  shows "to_double x \<le> of_int n * quantum x"
proof (rule to_double_upper_half)
  have "of_int n * quantum x < (of_int n + 1 / 2) * quantum x"
    using quantum_pos [of x] by (simp add: algebra_simps)
  with assms show "x < (of_int n + 1 / 2) * quantum x" by linarith
qed

text \<open>The quantum of a number below \<open>2 ^ (j + 53)\<close> divides \<open>2 ^ j\<close>.\<close>

lemma quantum_divides:
  assumes "x \<noteq> 0" "\<bar>x\<bar> < 2 powi (j + 53)" "- 1074 \<le> j"
  shows "\<exists>i::nat. 2 powi j = 2 ^ i * quantum x"
proof -
  let ?k = "max (exponent x) (- 1022) - 52"
  have k: "?k \<le> j"
    using exponent_less [OF assms(1,2)] assms(3) by simp
  have "(2::real) powi j = 2 powi (j - ?k) * 2 powi ?k"
    by (simp flip: power_int_add)
  also have "(2::real) powi (j - ?k) = 2 ^ nat (j - ?k)"
    using k by (simp add: power_int_def)
  finally show ?thesis by (auto simp: quantum_def)
qed

text \<open>Rounding does not cross a multiple of \<open>2 ^ j\<close>.\<close>

lemma to_double_grid_lower:
  assumes "\<bar>x\<bar> < 2 powi (j + 53)" "- 1074 \<le> j" "of_int a * 2 powi j \<le> x"
  shows "of_int a * 2 powi j \<le> to_double x"
proof (cases "x = 0")
  case True
  with assms show ?thesis by (simp add: to_double_def)
next
  case False
  from quantum_divides [OF False assms(1,2)] obtain i :: nat
    where i: "2 powi j = 2 ^ i * quantum x" by blast
  have eq: "of_int a * 2 powi j = of_int (a * 2 ^ i) * quantum x"
    by (simp add: i)
  show ?thesis
    unfolding eq by (rule to_double_lower) (use assms(3) eq in simp)
qed

lemma to_double_grid_upper:
  assumes "\<bar>x\<bar> < 2 powi (j + 53)" "- 1074 \<le> j" "x \<le> of_int c * 2 powi j"
  shows "to_double x \<le> of_int c * 2 powi j"
proof (cases "x = 0")
  case True
  with assms show ?thesis by (simp add: to_double_def)
next
  case False
  from quantum_divides [OF False assms(1,2)] obtain i :: nat
    where i: "2 powi j = 2 ^ i * quantum x" by blast
  have eq: "of_int c * 2 powi j = of_int (c * 2 ^ i) * quantum x"
    by (simp add: i)
  show ?thesis
    unfolding eq by (rule to_double_upper) (use assms(3) eq in simp)
qed

lemma to_double_grid_exact:
  assumes "\<bar>of_int a * 2 powi j\<bar> < (2::real) powi (j + 53)" "- 1074 \<le> j"
  shows "to_double (of_int a * 2 powi j) = of_int a * 2 powi j"
proof (rule antisym)
  show "to_double (of_int a * 2 powi j) \<le> of_int a * 2 powi j"
    by (rule to_double_grid_upper [OF assms]) simp
  show "of_int a * 2 powi j \<le> to_double (of_int a * 2 powi j)"
    by (rule to_double_grid_lower [OF assms]) simp
qed

lemma to_double_of_int:
  assumes "\<bar>m\<bar> \<le> 2 ^ 53"
  shows "to_double (of_int m) = of_int m"
proof (cases "\<bar>m\<bar> = 2 ^ 53")
  case True
  then have "m = 2 ^ 53 \<or> m = - (2 ^ 53)" by linarith
  then have m: "(of_int m :: real) = of_int (m div 2) * 2 powi 1" by auto
  have "\<bar>of_int (m div 2) * 2 powi 1\<bar> < (2::real) powi (1 + 53)"
    using True unfolding m [symmetric] by (simp flip: of_int_abs)
  then show ?thesis
    unfolding m by (rule to_double_grid_exact) simp
next
  case False
  with assms have "\<bar>m\<bar> < 2 ^ 53" by simp
  then have "\<bar>of_int m :: real\<bar> < 2 ^ 53"
    by (metis of_int_abs of_int_less_iff of_int_numeral of_int_power)
  then have "\<bar>of_int m * 2 powi 0\<bar> < (2::real) powi (0 + 53)" by simp
  then have "to_double (of_int m * 2 powi 0) = of_int m * 2 powi 0"
    by (rule to_double_grid_exact) simp
  then show ?thesis by simp
qed


lemma exponent_eqI:
  assumes "x \<noteq> 0" "2 powi k \<le> \<bar>x\<bar>" "\<bar>x\<bar> < 2 powi (k + 1)"
  shows "exponent x = k"
  using exponent_ge [OF assms(1,2)] exponent_less [OF assms(1,3)] by simp

lemma to_double_multiple:
  "\<exists>n::int. to_double x = of_int n * quantum x"
proof (cases "x = 0")
  case True
  then have "to_double x = of_int 0 * quantum x" by (simp add: to_double_def)
  then show ?thesis by blast
next
  case False
  then show ?thesis by (auto simp: to_double_def)
qed

lemma double_below_one:
  assumes "is_double r" "r < 1"
  shows "r \<le> 1 - 1 / 2 ^ 53"
proof (cases "r < 1 / 2")
  case True
  then show ?thesis by simp
next
  case False
  then have r: "r \<noteq> 0" "2 powi (- 1) \<le> \<bar>r\<bar>" "\<bar>r\<bar> < 2 powi (- 1 + 1)"
    using assms(2) by simp_all
  have e: "exponent r = - 1" by (rule exponent_eqI [OF r])
  have q: "quantum r = 1 / 2 ^ 53" by (simp add: quantum_def e power_int_minus_divide)
  from to_double_multiple [of r] assms(1) obtain n :: int where n: "r = of_int n / 2 ^ 53"
    by (auto simp: is_double_def q)
  from assms(2) have "(of_int n :: real) < 2 ^ 53" by (simp add: n)
  then have "n < 2 ^ 53" by (metis of_int_less_iff of_int_numeral of_int_power)
  then have "n \<le> 2 ^ 53 - 1" by simp
  then have "(of_int n :: real) \<le> of_int (2 ^ 53 - 1)" by (simp only: of_int_le_iff)
  then show ?thesis by (simp add: n field_simps)
qed

lemma times_900_range:
  assumes "is_double r" "0 \<le> r" "r < 1"
  shows "0 \<le> to_double (r * 900) \<and> to_double (r * 900) \<le> 900 - 1 / 2 ^ 43"
proof -
  let ?x = "r * 900"
  have x: "0 \<le> ?x" "?x < 900" using assms by simp_all
  have small: "\<bar>?x\<bar> < 2 powi (- 43 + 53)" using x by simp
  have "of_int 0 * 2 powi (- 43) \<le> to_double ?x"
    by (rule to_double_grid_lower [OF small]) (use x in simp_all)
  then have lo: "0 \<le> to_double ?x" by simp
  have hi: "to_double ?x \<le> 900 - 1 / 2 ^ 43"
  proof (cases "?x \<le> 512")
    case True
    have "to_double ?x \<le> of_int (512 * 2 ^ 43) * 2 powi (- 43)"
      by (rule to_double_grid_upper [OF small]) (use True in \<open>simp_all add: power_int_minus_divide\<close>)
    then show ?thesis by (simp add: power_int_minus_divide)
  next
    case False
    then have nz: "?x \<noteq> 0" "2 powi 9 \<le> \<bar>?x\<bar>" "\<bar>?x\<bar> < 2 powi (9 + 1)"
      using x by simp_all
    have e: "exponent ?x = 9" by (rule exponent_eqI [OF nz])
    have q: "quantum ?x = 1 / 2 ^ 43" by (simp add: quantum_def e power_int_minus_divide)
    from double_below_one [OF assms(1,3)] have "?x \<le> (1 - 1 / 2 ^ 53) * 900" by simp
    then have "?x < (of_int (900 * 2 ^ 43 - 1) + 1 / 2) * quantum ?x"
      unfolding q by simp
    then have "to_double ?x \<le> of_int (900 * 2 ^ 43 - 1) * quantum ?x"
      by (rule to_double_upper_half)
    then show ?thesis unfolding q by simp
  qed
  from lo hi show ?thesis by blast
qed

lemma plus_100_range:
  assumes "0 \<le> y" "y \<le> 900 - 1 / 2 ^ 43"
  shows "100 \<le> to_double (100 + y) \<and> to_double (100 + y) \<le> 1000 - 1 / 2 ^ 43"
proof -
  let ?x = "100 + y"
  have small: "\<bar>?x\<bar> < 2 powi (- 43 + 53)" using assms by simp
  have "of_int (100 * 2 ^ 43) * 2 powi (- 43) \<le> to_double ?x"
    by (rule to_double_grid_lower [OF small]) (use assms in \<open>simp_all add: power_int_minus_divide\<close>)
  then have lo: "100 \<le> to_double ?x" by (simp add: power_int_minus_divide)
  have "to_double ?x \<le> of_int (1000 * 2 ^ 43 - 1) * 2 powi (- 43)"
    by (rule to_double_grid_upper [OF small]) (use assms in \<open>simp_all add: power_int_minus_divide\<close>)
  then have hi: "to_double ?x \<le> 1000 - 1 / 2 ^ 43" by (simp add: power_int_minus_divide)
  from lo hi show ?thesis by blast
qed

lemma code_part_range:
  assumes "is_double r" "0 \<le> r" "r < 1"
  shows "100 \<le> \<lfloor>to_double (100 + to_double (r * 900))\<rfloor> \<and>
         \<lfloor>to_double (100 + to_double (r * 900))\<rfloor> \<le> 999"
proof -
  from times_900_range [OF assms] plus_100_range
  have z: "100 \<le> to_double (100 + to_double (r * 900))"
      "to_double (100 + to_double (r * 900)) \<le> 1000 - 1 / 2 ^ 43"
    by blast+
  from z(1) have lo: "100 \<le> \<lfloor>to_double (100 + to_double (r * 900))\<rfloor>"
    by (simp add: le_floor_iff)
  from z(2) have "to_double (100 + to_double (r * 900)) < 1000" by simp
  then have "\<lfloor>to_double (100 + to_double (r * 900))\<rfloor> < 1000" by (simp add: floor_less_iff)
  with lo show ?thesis by simp
qed


lemma quantum_eq: "quantum x = 2 powi (max (exponent x) (- 1022) - 52)"
  by (simp add: quantum_def)

lemma quantum_mono:
  assumes "x \<noteq> 0" "\<bar>x\<bar> \<le> \<bar>t\<bar>"
  shows "\<exists>i::nat. quantum t = 2 ^ i * quantum x"
proof -
  let ?kx = "max (exponent x) (- 1022) - 52"
  let ?kt = "max (exponent t) (- 1022) - 52"
  have k: "?kx \<le> ?kt" using exponent_mono [OF assms] by simp
  have "(2::real) powi ?kt = 2 powi (?kt - ?kx) * 2 powi ?kx"
    by (simp flip: power_int_add)
  also have "(2::real) powi (?kt - ?kx) = 2 ^ nat (?kt - ?kx)"
    using k by (simp add: power_int_def)
  finally show ?thesis unfolding quantum_eq by blast
qed

lemma is_double_to_double: "is_double (to_double t)"
proof (cases "t = 0")
  case True
  then show ?thesis by (simp add: is_double_def to_double_def)
next
  case False
  define k where "k = max (exponent t) (- 1022) - 52"
  define n where "n = round_half_even (t / quantum t)"
  have q: "quantum t = 2 powi k" by (simp add: quantum_def k_def)
  have v: "to_double t = of_int n * 2 powi k"
    using False by (simp add: to_double_def n_def q)
  have k1: "- 1074 \<le> k" by (simp add: k_def)
  have "exponent t + 1 \<le> k + 53" by (simp add: k_def)
  then have "(2::real) powi (exponent t + 1) \<le> 2 powi (k + 53)"
    by (rule power_int_increasing) simp
  with exponent_bounds [OF False] have "\<bar>t\<bar> < 2 powi (k + 53)" by linarith
  also have "(2::real) powi (k + 53) = 2 ^ 53 * 2 powi k"
    by (simp add: power_int_add)
  finally have t: "\<bar>t\<bar> < 2 ^ 53 * 2 powi k" .
  have qp: "(0::real) < 2 powi k" by simp
  have a: "\<bar>t\<bar> / 2 powi k < 2 ^ 53" using t qp by (simp add: field_simps)
  have "t / 2 powi k \<le> \<bar>t\<bar> / 2 powi k"
    using qp by (intro divide_right_mono) simp_all
  with a have up: "t / 2 powi k \<le> of_int (2 ^ 53)" by simp
  have "(- \<bar>t\<bar>) / 2 powi k \<le> t / 2 powi k"
    using qp by (intro divide_right_mono) simp_all
  with a have dn: "of_int (- (2 ^ 53)) \<le> t / 2 powi k" by simp
  have n_hi: "n \<le> 2 ^ 53"
    unfolding n_def q using up by (rule round_half_even_upper)
  have n_lo: "- (2 ^ 53) \<le> n"
    unfolding n_def q using dn by (rule round_half_even_lower)
  show ?thesis
  proof (cases "\<bar>n\<bar> = 2 ^ 53")
    case True
    then have "n = 2 ^ 53 \<or> n = - (2 ^ 53)" by linarith
    then have n2: "(of_int n :: real) = of_int (n div 2) * 2" by auto
    have eq: "of_int n * 2 powi k = of_int (n div 2) * (2::real) powi (k + 1)"
      by (simp add: n2 power_int_add)
    have "\<bar>of_int n * (2::real) powi k\<bar> = 2 ^ 53 * 2 powi k"
      using True by (simp add: abs_mult flip: of_int_abs)
    also have "\<dots> < 2 powi (k + 1 + 53)" by (simp add: power_int_add)
    finally have "\<bar>of_int (n div 2) * (2::real) powi (k + 1)\<bar> < 2 powi (k + 1 + 53)"
      unfolding eq .
    then have "to_double (of_int (n div 2) * 2 powi (k + 1)) = of_int (n div 2) * 2 powi (k + 1)"
      by (rule to_double_grid_exact) (use k1 in simp)
    then show ?thesis by (simp add: is_double_def v eq)
  next
    case False
    with n_hi n_lo have "\<bar>n\<bar> < 2 ^ 53" by linarith
    then have "\<bar>of_int n :: real\<bar> < 2 ^ 53"
      by (metis of_int_abs of_int_less_iff of_int_numeral of_int_power)
    then have "\<bar>of_int n * (2::real) powi k\<bar> < 2 ^ 53 * 2 powi k"
      by (simp add: abs_mult)
    also have "\<dots> = 2 powi (k + 53)" by (simp add: power_int_add)
    finally have "to_double (of_int n * 2 powi k) = of_int n * 2 powi k"
      by (rule to_double_grid_exact) (rule k1)
    then show ?thesis by (simp add: is_double_def v)
  qed
qed

lemma to_double_nonneg: "0 \<le> t \<Longrightarrow> 0 \<le> to_double t"
  using to_double_lower [of 0 t] by simp

lemma add_one_not_below:
  assumes "is_double x"
  shows "x \<le> to_double (x + 1)"
proof -
  from to_double_multiple [of x] assms obtain n :: int where n: "x = of_int n * quantum x"
    by (auto simp: is_double_def)
  consider "x + 1 = 0" | "x + 1 < 0" | "0 < x + 1" "x \<le> 0" | "0 < x" by linarith
  then show ?thesis
  proof cases
    case 1
    then show ?thesis by (simp add: to_double_def)
  next
    case 2
    then have x: "x + 1 \<noteq> 0" "\<bar>x + 1\<bar> \<le> \<bar>x\<bar>" by simp_all
    from quantum_mono [OF x] obtain i :: nat where i: "quantum x = 2 ^ i * quantum (x + 1)"
      by blast
    have eq: "x = of_int (n * 2 ^ i) * quantum (x + 1)"
      using n by (simp add: i)
    have "of_int (n * 2 ^ i) * quantum (x + 1) \<le> to_double (x + 1)"
      by (rule to_double_lower) (use eq in simp)
    then show ?thesis using eq by simp
  next
    case 3
    then have "0 \<le> to_double (x + 1)" by (simp add: to_double_nonneg)
    with 3 show ?thesis by linarith
  next
    case 4
    then have x: "x \<noteq> 0" "\<bar>x\<bar> \<le> \<bar>x + 1\<bar>" by simp_all
    let ?t = "x + 1"
    have t: "?t \<noteq> 0" using 4 by simp
    have em: "exponent x \<le> exponent ?t" by (rule exponent_mono [OF x])
    show ?thesis
    proof (cases "quantum ?t = quantum x")
      case True
      have "of_int n * quantum ?t \<le> to_double ?t"
        by (rule to_double_lower) (use n True in simp)
      then show ?thesis using n True by simp
    next
      case False
      have ne: "max (exponent ?t) (- 1022) \<noteq> max (exponent x) (- 1022)"
        using False by (auto simp: quantum_def)
      with em have gt: "exponent x < exponent ?t" "- 1022 < exponent ?t" by linarith+
      then have q: "quantum ?t = 2 powi (exponent ?t - 52)" by (simp add: quantum_def)
      have "(2::real) powi (52 + (exponent ?t - 52)) = 2 powi 52 * 2 powi (exponent ?t - 52)"
        by (rule power_int_add) simp
      then have p: "(2::real) powi exponent ?t = of_int (2 ^ 52) * quantum ?t"
        by (simp add: q)
      have "2 powi exponent ?t \<le> ?t" using exponent_bounds [OF t] 4 by simp
      then have "of_int (2 ^ 52) * quantum ?t \<le> to_double ?t"
        unfolding p by (rule to_double_lower)
      then have lo: "2 powi exponent ?t \<le> to_double ?t" by (simp only: p)
      have "exponent x + 1 \<le> exponent ?t" using gt by simp
      then have "(2::real) powi (exponent x + 1) \<le> 2 powi exponent ?t"
        by (rule power_int_increasing) simp
      with exponent_bounds [OF x(1)] have "\<bar>x\<bar> < 2 powi exponent ?t" by linarith
      with lo 4 show ?thesis by linarith
    qed
  qed
qed

lemma add_one_exact:
  assumes "- (2 ^ 53) \<le> k" "k < 2 ^ 53"
  shows "to_double (of_int k + 1) = of_int k + 1"
proof -
  have "\<bar>k + 1\<bar> \<le> 2 ^ 53" using assms by simp
  then have "to_double (of_int (k + 1)) = of_int (k + 1)" by (rule to_double_of_int)
  then show ?thesis by simp
qed

section \<open>Properties of the account-security methods\<close>

subsection \<open>Lockout\<close>

text \<open>
  C1.  An account with \<open>failedLoginAttempts = 4\<close>: one more call of
  \<open>incrementLoginAttempts\<close> at time \<open>now\<close> raises the counter to 5 and sets
  \<open>lockUntil\<close> to \<open>now\<close> plus 15 minutes (900000 ms); \<open>isAccountLocked\<close> is
  then true at exactly the times before \<open>lockUntil\<close>, and at each of them
  \<open>authenticate\<close> answers \<open>AccountLockedError\<close> and leaves the document as it
  is, whatever the candidate password and whatever \<open>bcrypt\<close> says about it.
\<close>

theorem account_locks_at_fifth_failure:
  assumes "failedLoginAttempts u = 4"
  shows "failedLoginAttempts (incrementLoginAttempts now u) = 5 \<and>
         lockUntil (incrementLoginAttempts now u) = Some (now + 900000) \<and>
         (\<forall>t. isAccountLocked t (incrementLoginAttempts now u) = (t < now + 900000)) \<and>
         (\<forall>t bc candidate. t < now + 900000 \<longrightarrow>
            authenticate bc t candidate (incrementLoginAttempts now u) =
              (Inl AccountLockedError, incrementLoginAttempts now u))"
proof -
  have five: "js_add 4 1 = 5"
    using add_one_exact [of 4] by (simp add: js_add_def)
  show ?thesis
    using assms
    by (simp add: incrementLoginAttempts_def isAccountLocked_def authenticate_def five
        MAX_FAILED_ATTEMPTS_def ACCOUNT_LOCK_DURATION_MS_def Let_def)
qed

theorem account_locks_at_fifth_failure_witness:
  "failedLoginAttempts example_user = 4 \<and>
   failedLoginAttempts (incrementLoginAttempts 1000 example_user) = 5 \<and>
   lockUntil (incrementLoginAttempts 1000 example_user) = Some 901000 \<and>
   isAccountLocked 900999 (incrementLoginAttempts 1000 example_user) \<and>
   \<not> isAccountLocked 901000 (incrementLoginAttempts 1000 example_user) \<and>
   verifyPassword example_bcrypt ''secret'' ((incrementLoginAttempts 1000 example_user)\<lparr>passwordHash := ''#secret''\<rparr>) \<and>
   fst (authenticate example_bcrypt 2000 ''secret'' (incrementLoginAttempts 1000 example_user)) =
     Inl AccountLockedError"
proof -
  have h: "failedLoginAttempts example_user = 4" by (simp add: example_user_def)
  show ?thesis
    using h account_locks_at_fifth_failure [OF h, of 1000]
    by (simp add: verifyPassword_def example_bcrypt_def)
qed


subsection \<open>The attempt counter\<close>

lemma failedLoginAttempts_increment:
  "failedLoginAttempts (incrementLoginAttempts now u) = js_add (failedLoginAttempts u) 1"
  by (simp add: incrementLoginAttempts_def Let_def)

lemma failedLoginAttempts_apply_op:
  "failedLoginAttempts (apply_op bc validate (now, x) u) =
     (case x of ResetLock \<Rightarrow> 0
      | IncrementLoginAttempts \<Rightarrow> js_add (failedLoginAttempts u) 1
      | _ \<Rightarrow> failedLoginAttempts u)"
  by (cases x)
     (auto simp: resetLock_def incrementLoginAttempts_def generateVerifyCode_def
        generateResetCode_def save_def pre_save_def Let_def split: sum.splits option.splits)

lemma apply_op_not_below:
  assumes "x \<noteq> ResetLock" "is_double (failedLoginAttempts u)"
  shows "failedLoginAttempts u \<le> failedLoginAttempts (apply_op bc validate (now, x) u) \<and>
         is_double (failedLoginAttempts (apply_op bc validate (now, x) u))"
proof (cases "x = IncrementLoginAttempts")
  case True
  have "failedLoginAttempts (apply_op bc validate (now, x) u) =
          to_double (failedLoginAttempts u + 1)"
    using True by (simp add: failedLoginAttempts_increment js_add_def)
  then show ?thesis
    using add_one_not_below [OF assms(2)] is_double_to_double by simp
next
  case False
  with assms(1) have "failedLoginAttempts (apply_op bc validate (now, x) u) = failedLoginAttempts u"
    by (simp add: failedLoginAttempts_apply_op split: security_op.splits)
  with assms(2) show ?thesis by simp
qed

lemma run_ops_not_below:
  "ResetLock \<notin> snd ` set ops \<Longrightarrow> is_double (failedLoginAttempts u) \<Longrightarrow>
   failedLoginAttempts u \<le> failedLoginAttempts (run_ops bc validate ops u)"
proof (induction ops arbitrary: u)
  case Nil
  then show ?case by simp
next
  case (Cons x xs)
  obtain now y where x: "x = (now, y)" by (cases x)
  from Cons.prems have nr: "y \<noteq> ResetLock" and rest: "ResetLock \<notin> snd ` set xs"
    by (auto simp: x)
  from apply_op_not_below [OF nr Cons.prems(2), of bc validate now]
  have step: "failedLoginAttempts u \<le> failedLoginAttempts (apply_op bc validate x u)"
    and dbl: "is_double (failedLoginAttempts (apply_op bc validate x u))"
    by (simp_all add: x)
  from Cons.IH [OF rest dbl] step show ?case by simp
qed

lemma run_ops_counts:
  "ResetLock \<notin> snd ` set ops \<Longrightarrow> failedLoginAttempts u = of_int k \<Longrightarrow>
   - (2 ^ 53) \<le> k \<Longrightarrow> k + int (count_increments ops) \<le> 2 ^ 53 \<Longrightarrow>
   failedLoginAttempts (run_ops bc validate ops u) = of_int k + of_nat (count_increments ops)"
proof (induction ops arbitrary: u k)
  case Nil
  then show ?case by (simp add: count_increments_def)
next
  case (Cons x xs)
  obtain now y where x: "x = (now, y)" by (cases x)
  from Cons.prems have nr: "y \<noteq> ResetLock" and rest: "ResetLock \<notin> snd ` set xs"
    by (auto simp: x)
  show ?case
  proof (cases "y = IncrementLoginAttempts")
    case True
    then have cnt: "count_increments (x # xs) = Suc (count_increments xs)"
      by (simp add: count_increments_def x)
    with Cons.prems(4) have k: "k < 2 ^ 53" by simp
    have "failedLoginAttempts (apply_op bc validate x u) = to_double (of_int k + 1)"
      using True Cons.prems(2) by (simp add: x failedLoginAttempts_increment js_add_def)
    also have "\<dots> = of_int (k + 1)"
      using add_one_exact [OF Cons.prems(3) k] by simp
    finally have c: "failedLoginAttempts (apply_op bc validate x u) = of_int (k + 1)" .
    have "failedLoginAttempts (run_ops bc validate xs (apply_op bc validate x u)) =
            of_int (k + 1) + of_nat (count_increments xs)"
      by (rule Cons.IH [OF rest c]) (use Cons.prems(3,4) cnt in simp_all)
    then show ?thesis by (simp add: cnt)
  next
    case False
    then have cnt: "count_increments (x # xs) = count_increments xs"
      by (simp add: count_increments_def x)
    have c: "failedLoginAttempts (apply_op bc validate x u) = of_int k"
      using False nr Cons.prems(2)
      by (simp add: x failedLoginAttempts_apply_op split: security_op.splits)
    have "failedLoginAttempts (run_ops bc validate xs (apply_op bc validate x u)) =
            of_int k + of_nat (count_increments xs)"
      by (rule Cons.IH [OF rest c]) (use Cons.prems(3,4) cnt in simp_all)
    then show ?thesis by (simp add: cnt)
  qed
qed

text \<open>
  C7 as stated, that every failed-password event raises the counter by exactly
  one, does not hold of every account: the counter is a JavaScript number, and
  at \<open>2 ^ 53 = 9007199254740992\<close> adding one rounds back to the same number, so
  \<open>incrementLoginAttempts\<close> leaves the counter as it was.
\<close>

theorem counter_stalls_at_2_53_counterexample:
  "is_double 9007199254740992 \<and>
   failedLoginAttempts
     (incrementLoginAttempts 1000 (example_user\<lparr>failedLoginAttempts := 9007199254740992\<rparr>)) =
     9007199254740992"
  by (simp add: incrementLoginAttempts_def js_add_def is_double_def to_double_def quantum_def
      exponent_def round_half_even_def bitlen.simps Let_def)

text \<open>
  C7, amended.  \<open>resetLock\<close> sets \<open>failedLoginAttempts\<close> to zero and clears
  \<open>lockUntil\<close>.  No operation other than \<open>resetLock\<close> lowers a counter that is
  a finite number, and over a sequence of operations without \<open>resetLock\<close> the
  counter never ends below its start.  \<open>incrementLoginAttempts\<close> raises a
  counter that is an integer from \<open>- 2 ^ 53\<close> to \<open>2 ^ 53 - 1\<close> by exactly one;
  over a sequence without \<open>resetLock\<close> that starts at such an integer and does
  not count beyond \<open>2 ^ 53\<close>, the counter ends at its start value plus the
  number of \<open>incrementLoginAttempts\<close> calls.
\<close>

theorem failedLoginAttempts_only_reset_decreases:
  "failedLoginAttempts (apply_op bc validate (now, ResetLock) u) = 0 \<and>
   lockUntil (apply_op bc validate (now, ResetLock) u) = None \<and>
   (x \<noteq> ResetLock \<and> is_double (failedLoginAttempts u) \<longrightarrow>
      failedLoginAttempts u \<le> failedLoginAttempts (apply_op bc validate (now, x) u)) \<and>
   (ResetLock \<notin> snd ` set ops \<and> is_double (failedLoginAttempts u) \<longrightarrow>
      failedLoginAttempts u \<le> failedLoginAttempts (run_ops bc validate ops u)) \<and>
   (failedLoginAttempts u = of_int k \<and> - (2 ^ 53) \<le> k \<and> k < 2 ^ 53 \<longrightarrow>
      failedLoginAttempts (apply_op bc validate (now, IncrementLoginAttempts) u) = of_int k + 1) \<and>
   (ResetLock \<notin> snd ` set ops \<and> failedLoginAttempts u = of_int k \<and> - (2 ^ 53) \<le> k \<and>
    k + int (count_increments ops) \<le> 2 ^ 53 \<longrightarrow>
      failedLoginAttempts (run_ops bc validate ops u) = of_int k + of_nat (count_increments ops))"
proof -
  have a: "failedLoginAttempts (apply_op bc validate (now, ResetLock) u) = 0"
    by (simp add: resetLock_def)
  have b: "lockUntil (apply_op bc validate (now, ResetLock) u) = None"
    by (simp add: resetLock_def)
  have c: "x \<noteq> ResetLock \<and> is_double (failedLoginAttempts u) \<longrightarrow>
      failedLoginAttempts u \<le> failedLoginAttempts (apply_op bc validate (now, x) u)"
    using apply_op_not_below [of x u bc validate now] by blast
  have d: "ResetLock \<notin> snd ` set ops \<and> is_double (failedLoginAttempts u) \<longrightarrow>
      failedLoginAttempts u \<le> failedLoginAttempts (run_ops bc validate ops u)"
    using run_ops_not_below [of ops u bc validate] by blast
  have e: "failedLoginAttempts u = of_int k \<and> - (2 ^ 53) \<le> k \<and> k < 2 ^ 53 \<longrightarrow>
      failedLoginAttempts (apply_op bc validate (now, IncrementLoginAttempts) u) = of_int k + 1"
    using add_one_exact [of k] by (auto simp: failedLoginAttempts_increment js_add_def)
  have f: "ResetLock \<notin> snd ` set ops \<and> failedLoginAttempts u = of_int k \<and> - (2 ^ 53) \<le> k \<and>
    k + int (count_increments ops) \<le> 2 ^ 53 \<longrightarrow>
      failedLoginAttempts (run_ops bc validate ops u) = of_int k + of_nat (count_increments ops)"
    using run_ops_counts [of ops u k bc validate] by blast
  from a b c d e f show ?thesis by blast
qed

theorem failedLoginAttempts_only_reset_decreases_witness:
  "Save \<noteq> ResetLock \<and> is_double (failedLoginAttempts example_user) \<and>
   failedLoginAttempts example_user = of_int 4 \<and> - (2 ^ 53) \<le> (4::int) \<and> (4::int) < 2 ^ 53 \<and>
   failedLoginAttempts example_user \<le>
     failedLoginAttempts (apply_op example_bcrypt accept_document (10, Save) example_user) \<and>
   failedLoginAttempts
     (apply_op example_bcrypt accept_document (10, IncrementLoginAttempts) example_user) = 5 \<and>
   ResetLock \<notin> snd ` set [(10, Save), (20, IncrementLoginAttempts), (30, GenerateVerifyCode 0 0),
                              (40, IncrementLoginAttempts), (50, VerifyPassword ''x'')] \<and>
   failedLoginAttempts
     (run_ops example_bcrypt accept_document
        [(10, Save), (20, IncrementLoginAttempts), (30, GenerateVerifyCode 0 0),
         (40, IncrementLoginAttempts), (50, VerifyPassword ''x'')] example_user) = 6"
proof -
  let ?ops = "[(10, Save), (20, IncrementLoginAttempts), (30, GenerateVerifyCode 0 0),
               (40, IncrementLoginAttempts), (50, VerifyPassword ''x'')]"
  have c4: "failedLoginAttempts example_user = of_int 4" by (simp add: example_user_def)
  have dbl: "is_double (failedLoginAttempts example_user)"
    by (simp add: example_user_def is_double_def to_double_def quantum_def exponent_def
        round_half_even_def bitlen.simps Let_def)
  have nr: "ResetLock \<notin> snd ` set ?ops" by simp
  have cnt: "count_increments ?ops = 2" by (simp add: count_increments_def)
  have b4: "- (2 ^ 53) \<le> (4::int)" "(4::int) < 2 ^ 53" by simp_all
  note t = failedLoginAttempts_only_reset_decreases
    [where bc = example_bcrypt and validate = accept_document and now = 10 and u = example_user
       and x = Save and ops = ?ops and k = 4]
  have s: "failedLoginAttempts example_user \<le>
     failedLoginAttempts (apply_op example_bcrypt accept_document (10, Save) example_user)"
    using t dbl by blast
  have i: "failedLoginAttempts
     (apply_op example_bcrypt accept_document (10, IncrementLoginAttempts) example_user) = of_int 4 + 1"
    using t c4 b4 by blast
  have r: "failedLoginAttempts (run_ops example_bcrypt accept_document ?ops example_user) =
     of_int 4 + of_nat (count_increments ?ops)"
    using t c4 nr cnt by simp
  have r6: "failedLoginAttempts (run_ops example_bcrypt accept_document ?ops example_user) = 6"
    unfolding r cnt by simp
  show ?thesis
    using c4 dbl s i r6 by simp
qed

subsection \<open>Verification and reset codes\<close>

lemma is_digit_digit_char: "d < 10 \<Longrightarrow> is_digit (digit_char d)"
proof -
  assume "d < 10"
  then have "d \<in> {0,1,2,3,4,5,6,7,8,9}" by auto
  then show ?thesis by (auto simp: is_digit_def digit_char_def)
qed

lemma toString_nat_three_digits:
  assumes "100 \<le> n" "n \<le> 999"
  shows "toString_nat n =
    [digit_char (n div 100), digit_char (n div 10 mod 10), digit_char (n mod 10)]"
proof -
  have b: "\<not> n < 10" "\<not> n div 10 < 10" "n div 10 div 10 < 10" using assms by auto
  have 1: "toString_nat n = toString_nat (n div 10) @ [digit_char (n mod 10)]"
    using b by (subst toString_nat.simps) simp
  have 2: "toString_nat (n div 10) = toString_nat (n div 10 div 10) @ [digit_char (n div 10 mod 10)]"
    using b by (subst toString_nat.simps) simp
  have 3: "toString_nat (n div 10 div 10) = [digit_char (n div 10 div 10)]"
    using b by (subst toString_nat.simps) simp
  have "n div 10 div 10 = n div 100" by (simp add: div_mult2_eq)
  with 1 2 3 show ?thesis by simp
qed

lemma toString_three_digits:
  assumes "100 \<le> i" "i \<le> 999"
  shows "\<exists>a b c. toString i = [a, b, c] \<and> is_digit a \<and> is_digit b \<and> is_digit c"
proof -
  have n: "100 \<le> nat i" "nat i \<le> 999" using assms by auto
  have "toString i = toString_nat (nat i)" using assms by (simp add: toString_def)
  also have "\<dots> = [digit_char (nat i div 100), digit_char (nat i div 10 mod 10),
                     digit_char (nat i mod 10)]"
    by (rule toString_nat_three_digits [OF n])
  finally have eq: "toString i = [digit_char (nat i div 100), digit_char (nat i div 10 mod 10),
                     digit_char (nat i mod 10)]" .
  have "nat i div 100 < 10" using n by auto
  then show ?thesis
    using eq by (auto intro!: is_digit_digit_char)
qed

lemma generateCode_format:
  assumes "is_double r1" "0 \<le> r1" "r1 < 1" "is_double r2" "0 \<le> r2" "r2 < 1"
  shows "matches_code_format (generateCode r1 r2)"
proof -
  obtain a b c where p1: "toString \<lfloor>js_add 100 (js_mul r1 900)\<rfloor> = [a, b, c]"
      "is_digit a" "is_digit b" "is_digit c"
    using toString_three_digits code_part_range [OF assms(1,2,3)]
    unfolding js_add_def js_mul_def by blast
  obtain e f g where p2: "toString \<lfloor>js_add 100 (js_mul r2 900)\<rfloor> = [e, f, g]"
      "is_digit e" "is_digit f" "is_digit g"
    using toString_three_digits code_part_range [OF assms(4,5,6)]
    unfolding js_add_def js_mul_def by blast
  show ?thesis
    using p1 p2 by (simp add: generateCode_def Let_def)
qed

text \<open>
  C8.  With both random numbers doubles in \<open>[0, 1)\<close>, and the product and the
  sum rounded as the doubles are, each half of the code is the decimal form of
  an integer between 100 and 999, and the code matches the schema's pattern of
  three digits, a hyphen and three digits.  \<open>generateVerifyCode\<close> and
  \<open>generateResetCode\<close> return the code, store it and set the expiry of their
  kind to the current time plus 15 minutes (900000 ms); the result does not
  depend on a code or expiry of that kind that was pending before.
\<close>

theorem generated_codes_format_and_expiry:
  assumes "is_double r1" "0 \<le> r1" "r1 < 1" "is_double r2" "0 \<le> r2" "r2 < 1"
  shows "100 \<le> \<lfloor>js_add 100 (js_mul r1 900)\<rfloor> \<and> \<lfloor>js_add 100 (js_mul r1 900)\<rfloor> \<le> 999 \<and>
         100 \<le> \<lfloor>js_add 100 (js_mul r2 900)\<rfloor> \<and> \<lfloor>js_add 100 (js_mul r2 900)\<rfloor> \<le> 999 \<and>
         generateCode r1 r2 =
           toString \<lfloor>js_add 100 (js_mul r1 900)\<rfloor> @ ''-'' @
           toString \<lfloor>js_add 100 (js_mul r2 900)\<rfloor> \<and>
         matches_code_format (generateCode r1 r2) \<and>
         generateVerifyCode r1 r2 now u =
           (generateCode r1 r2,
            u\<lparr>verifyCode := Some (generateCode r1 r2), verifyCodeExpiresAt := Some (now + 900000)\<rparr>) \<and>
         generateResetCode r1 r2 now u =
           (generateCode r1 r2,
            u\<lparr>resetCode := Some (generateCode r1 r2), resetCodeExpiresAt := Some (now + 900000)\<rparr>) \<and>
         generateVerifyCode r1 r2 now (u\<lparr>verifyCode := c0, verifyCodeExpiresAt := e0\<rparr>) =
           generateVerifyCode r1 r2 now u \<and>
         generateResetCode r1 r2 now (u\<lparr>resetCode := c0, resetCodeExpiresAt := e0\<rparr>) =
           generateResetCode r1 r2 now u"
proof -
  have f: "matches_code_format (generateCode r1 r2)"
    by (rule generateCode_format [OF assms])
  have g: "generateCode r1 r2 =
           toString \<lfloor>js_add 100 (js_mul r1 900)\<rfloor> @ ''-'' @
           toString \<lfloor>js_add 100 (js_mul r2 900)\<rfloor>"
    by (simp add: generateCode_def Let_def)
  have v: "generateVerifyCode r1 r2 now u =
           (generateCode r1 r2,
            u\<lparr>verifyCode := Some (generateCode r1 r2), verifyCodeExpiresAt := Some (now + 900000)\<rparr>)"
    by (simp add: generateVerifyCode_def CODE_EXPIRATION_MINUTES_def Let_def)
  have r: "generateResetCode r1 r2 now u =
           (generateCode r1 r2,
            u\<lparr>resetCode := Some (generateCode r1 r2), resetCodeExpiresAt := Some (now + 900000)\<rparr>)"
    by (simp add: generateResetCode_def CODE_EXPIRATION_MINUTES_def Let_def)
  have ov: "generateVerifyCode r1 r2 now (u\<lparr>verifyCode := c0, verifyCodeExpiresAt := e0\<rparr>) =
           generateVerifyCode r1 r2 now u"
    by (simp add: generateVerifyCode_def Let_def)
  have orr: "generateResetCode r1 r2 now (u\<lparr>resetCode := c0, resetCodeExpiresAt := e0\<rparr>) =
           generateResetCode r1 r2 now u"
    by (simp add: generateResetCode_def Let_def)
  have p1: "100 \<le> \<lfloor>js_add 100 (js_mul r1 900)\<rfloor> \<and> \<lfloor>js_add 100 (js_mul r1 900)\<rfloor> \<le> 999"
    using code_part_range [OF assms(1,2,3)] by (simp add: js_add_def js_mul_def)
  have p2: "100 \<le> \<lfloor>js_add 100 (js_mul r2 900)\<rfloor> \<and> \<lfloor>js_add 100 (js_mul r2 900)\<rfloor> \<le> 999"
    using code_part_range [OF assms(4,5,6)] by (simp add: js_add_def js_mul_def)
  from p1 p2 f g v r ov orr show ?thesis by blast
qed

theorem generated_codes_format_and_expiry_witness:
  "is_double (1 / 2) \<and> (0::real) \<le> 1 / 2 \<and> (1 / 2 :: real) < 1 \<and>
   is_double (115091990477246 / 2 ^ 52) \<and> (0::real) \<le> 115091990477246 / 2 ^ 52 \<and>
   (115091990477246 / 2 ^ 52 :: real) < 1 \<and>
   \<lfloor>100 + (115091990477246 / 2 ^ 52 * 900 :: real)\<rfloor> = 122 \<and>
   generateCode (1 / 2) (115091990477246 / 2 ^ 52) = ''550-123'' \<and>
   generateCode (1 - 1 / 2 ^ 53) 0 = ''999-100'' \<and>
   matches_code_format (generateCode (1 / 2) (115091990477246 / 2 ^ 52)) \<and>
   fst (generateVerifyCode (1 / 2) (115091990477246 / 2 ^ 52) 1000 example_user) = ''550-123'' \<and>
   verifyCode (snd (generateVerifyCode (1 / 2) (115091990477246 / 2 ^ 52) 1000 example_user)) =
     Some ''550-123'' \<and>
   verifyCodeExpiresAt (snd (generateVerifyCode (1 / 2) (115091990477246 / 2 ^ 52) 1000 example_user)) =
     Some 901000 \<and>
   resetCode (snd (generateResetCode (1 / 2) (115091990477246 / 2 ^ 52) 1000 example_user)) =
     Some ''550-123'' \<and>
   resetCodeExpiresAt (snd (generateResetCode (1 / 2) (115091990477246 / 2 ^ 52) 1000 example_user)) =
     Some 901000"
proof -
  have d1: "is_double (1 / 2)"
    by (simp add: is_double_def to_double_def quantum_def exponent_def round_half_even_def
        bitlen.simps Let_def)
  have d2: "is_double (115091990477246 / 2 ^ 52)"
    by (simp add: is_double_def to_double_def quantum_def exponent_def round_half_even_def
        bitlen.simps Let_def)
  have h1: "(0::real) \<le> 1 / 2" "(1 / 2 :: real) < 1" by simp_all
  have h2: "(0::real) \<le> 115091990477246 / 2 ^ 52" "(115091990477246 / 2 ^ 52 :: real) < 1"
    by simp_all
  have fl: "\<lfloor>100 + (115091990477246 / 2 ^ 52 * 900 :: real)\<rfloor> = 122" by simp
  have c: "generateCode (1 / 2) (115091990477246 / 2 ^ 52) = ''550-123''"
    by (simp add: generateCode_def js_add_def js_mul_def to_double_def quantum_def exponent_def
        round_half_even_def bitlen.simps Let_def toString_def toString_nat.simps digit_char_def)
  have x: "generateCode (1 - 1 / 2 ^ 53) 0 = ''999-100''"
    by (simp add: generateCode_def js_add_def js_mul_def to_double_def quantum_def exponent_def
        round_half_even_def bitlen.simps Let_def toString_def toString_nat.simps digit_char_def)
  note t = generated_codes_format_and_expiry [OF d1 h1 d2 h2, of 1000 example_user]
  have m: "matches_code_format (generateCode (1 / 2) (115091990477246 / 2 ^ 52))"
    using t by blast
  have v: "generateVerifyCode (1 / 2) (115091990477246 / 2 ^ 52) 1000 example_user =
           (generateCode (1 / 2) (115091990477246 / 2 ^ 52),
            example_user\<lparr>verifyCode := Some (generateCode (1 / 2) (115091990477246 / 2 ^ 52)),
                         verifyCodeExpiresAt := Some (1000 + 900000)\<rparr>)"
    using t by blast
  have r: "generateResetCode (1 / 2) (115091990477246 / 2 ^ 52) 1000 example_user =
           (generateCode (1 / 2) (115091990477246 / 2 ^ 52),
            example_user\<lparr>resetCode := Some (generateCode (1 / 2) (115091990477246 / 2 ^ 52)),
                         resetCodeExpiresAt := Some (1000 + 900000)\<rparr>)"
    using t by blast
  show ?thesis
    using d1 d2 h1 h2 fl m c x v r by simp
qed

text \<open>
  C3.  Against the operations as the specification words them.  With a pending
  verify code (or reset code) and expiry, consuming succeeds exactly when the
  candidate equals the stored code and the current time is strictly before the
  expiry; success clears the code (so that a second attempt with the same
  candidate fails with \<open>CodeMismatchError\<close>) and, for verify, sets
  \<open>isVerified\<close>; a wrong candidate fails with \<open>CodeMismatchError\<close> and the
  right candidate at or after the expiry fails with \<open>CodeExpiredError\<close>.
\<close>

theorem consume_code_iff_match_and_unexpired:
  "(verifyCode u = Some code \<and> verifyCodeExpiresAt u = Some expiry \<longrightarrow>
      (\<not> isl (consumeVerifyCode now candidate u)) = (candidate = code \<and> now < expiry) \<and>
      (candidate = code \<and> now < expiry \<longrightarrow>
         consumeVerifyCode now candidate u = Inr (u\<lparr>verifyCode := None, isVerified := True\<rparr>) \<and>
         consumeVerifyCode now' candidate (u\<lparr>verifyCode := None, isVerified := True\<rparr>) =
           Inl CodeMismatchError) \<and>
      (candidate \<noteq> code \<longrightarrow> consumeVerifyCode now candidate u = Inl CodeMismatchError) \<and>
      (candidate = code \<and> expiry \<le> now \<longrightarrow> consumeVerifyCode now candidate u = Inl CodeExpiredError)) \<and>
   (resetCode u = Some code \<and> resetCodeExpiresAt u = Some expiry \<longrightarrow>
      (\<not> isl (consumeResetCode now candidate u)) = (candidate = code \<and> now < expiry) \<and>
      (candidate = code \<and> now < expiry \<longrightarrow>
         consumeResetCode now candidate u = Inr (u\<lparr>resetCode := None\<rparr>) \<and>
         consumeResetCode now' candidate (u\<lparr>resetCode := None\<rparr>) = Inl CodeMismatchError) \<and>
      (candidate \<noteq> code \<longrightarrow> consumeResetCode now candidate u = Inl CodeMismatchError) \<and>
      (candidate = code \<and> expiry \<le> now \<longrightarrow> consumeResetCode now candidate u = Inl CodeExpiredError))"
  by (simp add: consumeVerifyCode_def consumeResetCode_def)

theorem consume_code_iff_match_and_unexpired_witness:
  "verifyCode example_user = Some ''123-456'' \<and> verifyCodeExpiresAt example_user = Some 5000 \<and>
   resetCode example_user = Some ''654-321'' \<and> resetCodeExpiresAt example_user = Some 7000 \<and>
   consumeVerifyCode 4999 ''123-456'' example_user =
     Inr (example_user\<lparr>verifyCode := None, isVerified := True\<rparr>) \<and>
   consumeVerifyCode 4999 ''123-457'' example_user = Inl CodeMismatchError \<and>
   consumeVerifyCode 5000 ''123-456'' example_user = Inl CodeExpiredError \<and>
   consumeResetCode 6999 ''654-321'' example_user = Inr (example_user\<lparr>resetCode := None\<rparr>) \<and>
   consumeResetCode 6999 ''123-456'' example_user = Inl CodeMismatchError \<and>
   consumeResetCode 7000 ''654-321'' example_user = Inl CodeExpiredError"
proof -
  have v: "verifyCode example_user = Some ''123-456'' \<and> verifyCodeExpiresAt example_user = Some 5000"
    by (simp add: example_user_def)
  have r: "resetCode example_user = Some ''654-321'' \<and> resetCodeExpiresAt example_user = Some 7000"
    by (simp add: example_user_def)
  show ?thesis
    using v r
      consume_code_iff_match_and_unexpired [of example_user "''123-456''" 5000 4999 "''123-456''" 0]
      consume_code_iff_match_and_unexpired [of example_user "''123-456''" 5000 4999 "''123-457''" 0]
      consume_code_iff_match_and_unexpired [of example_user "''123-456''" 5000 5000 "''123-456''" 0]
      consume_code_iff_match_and_unexpired [of example_user "''654-321''" 7000 6999 "''654-321''" 0]
      consume_code_iff_match_and_unexpired [of example_user "''654-321''" 7000 6999 "''123-456''" 0]
      consume_code_iff_match_and_unexpired [of example_user "''654-321''" 7000 7000 "''654-321''" 0]
    by simp
qed

subsection \<open>Password hashing\<close>




section \<open>Properties of the model registry\<close>

text \<open>
  C4.  If a name is bound to a registered model, \<open>registerModel\<close> with that
  name fails with the error \<^verbatim>\<open>Model "name" already registered for tenant.\<close>,
  leaves the database object as it was, and \<open>getModel\<close> still answers the model
  bound first.  In particular, after a successful \<open>registerModel\<close> the name is
  bound to the model compiled from the first schema, and a second
  \<open>registerModel\<close> with the same name, whatever the schema, fails in that way
  and changes nothing.  The constructor of the model base class does not
  register a name that is bound: it takes the model bound first.
\<close>

theorem second_registerModel_fails:
  \<open>(models mdb name = Some m \<longrightarrow>
       registerModel name schema mdb =
         (Inl (Error (''Model "'' @ name @ ''" already registered for tenant.'')), mdb) \<and>
       getModel name mdb = Some m \<and>
       mongoModel_constructor className name (Some schema) mdb = (Inr (Some m), mdb)) \<and>
    (registerModel name first_schema mdb = (Inr (), registered) \<longrightarrow>
       getModel name registered \<noteq> None \<and>
       getModel name registered =
         (case mongooseConnection mdb of
            None \<Rightarrow> None
          | Some c \<Rightarrow> (case conn_model c name first_schema of Inl err \<Rightarrow> None | Inr compiled \<Rightarrow> Some compiled)) \<and>
       registerModel name schema registered =
         (Inl (Error (''Model "'' @ name @ ''" already registered for tenant.'')), registered) \<and>
       getModel name (snd (registerModel name schema registered)) = getModel name registered)\<close>
  by (auto simp: registerModel_def getModel_def mongoModel_constructor_def
        split: option.splits sum.splits if_splits)

theorem second_registerModel_fails_witness:
  \<open>models example_database ''user'' = Some (''user'', ''userSchema'') \<and>
    registerModel ''user'' ''otherSchema'' example_database =
      (Inl (Error ''Model "user" already registered for tenant.''), example_database) \<and>
    getModel ''user'' example_database = Some (''user'', ''userSchema'') \<and>
    registerModel ''post'' ''postSchema'' example_database =
      (Inr (), example_database\<lparr>models := (models example_database)(''post'' \<mapsto> (''post'', ''postSchema''))\<rparr>) \<and>
    registerModel ''post'' ''otherSchema''
          (example_database\<lparr>models := (models example_database)(''post'' \<mapsto> (''post'', ''postSchema''))\<rparr>) =
      (Inl (Error ''Model "post" already registered for tenant.''),
       example_database\<lparr>models := (models example_database)(''post'' \<mapsto> (''post'', ''postSchema''))\<rparr>) \<and>
    getModel ''post''
      (example_database\<lparr>models := (models example_database)(''post'' \<mapsto> (''post'', ''postSchema''))\<rparr>) =
      Some (''post'', ''postSchema'')\<close>
proof -
  have a: "models example_database ''user'' = Some (''user'', ''userSchema'')"
    by (simp add: example_database_def)
  have b: "registerModel ''post'' ''postSchema'' example_database =
      (Inr (), example_database\<lparr>models := (models example_database)(''post'' \<mapsto> (''post'', ''postSchema''))\<rparr>)"
    by (simp add: registerModel_def example_database_def example_connection_def)
  note t1 = second_registerModel_fails
      [where mdb = example_database and name = "''user''" and m = "(''user'', ''userSchema'')"
         and schema = "''otherSchema''"]
  note t2 = second_registerModel_fails
      [where mdb = example_database and name = "''post''" and first_schema = "''postSchema''"
         and schema = "''otherSchema''"
         and registered = "example_database\<lparr>models := (models example_database)(''post'' \<mapsto> (''post'', ''postSchema''))\<rparr>"]
  have c: \<open>registerModel ''user'' ''otherSchema'' example_database =
      (Inl (Error (''Model "'' @ ''user'' @ ''" already registered for tenant.'')), example_database) \<and>
      getModel ''user'' example_database = Some (''user'', ''userSchema'')\<close>
    using a t1 by blast
  have d: \<open>registerModel ''post'' ''otherSchema''
          (example_database\<lparr>models := (models example_database)(''post'' \<mapsto> (''post'', ''postSchema''))\<rparr>) =
      (Inl (Error (''Model "'' @ ''post'' @ ''" already registered for tenant.'')),
       example_database\<lparr>models := (models example_database)(''post'' \<mapsto> (''post'', ''postSchema''))\<rparr>)\<close>
    using b t2 by blast
  have e: "getModel ''post''
      (example_database\<lparr>models := (models example_database)(''post'' \<mapsto> (''post'', ''postSchema''))\<rparr>) =
      Some (''post'', ''postSchema'')"
    by (simp add: getModel_def)
  show ?thesis using a b c d e by simp
qed

section \<open>Properties of createLog\<close>

subsection \<open>What the steps do to the database\<close>

lemma sys_log_fields [simp]:
  "db (sys_log l m w) = db w" "connect_error (sys_log l m w) = connect_error w"
  "drop_error (sys_log l m w) = drop_error w" "calls (sys_log l m w) = calls w"
  by (simp_all add: sys_log_def)

lemma call_made_fields [simp]:
  "db (call_made c w) = db w" "connect_error (call_made c w) = connect_error w"
  "drop_error (call_made c w) = drop_error w" "calls (call_made c w) = calls w @ [c]"
  by (simp_all add: call_made_def)

lemma filter_name_empty_iff:
  "(filter (\<lambda>(n, c). n = name) xs = []) = (map_of xs name = None)"
  by (induction xs) auto

lemma map_of_add_index:
  "map_of (map (\<lambda>(n, c). if n = name then (n, f c) else (n, c)) xs) name =
     map_option f (map_of xs name)"
  by (induction xs) auto

lemma ttlExists_ttl_index: "ttlExists (idxs @ [ttl_index days])"
  by (simp add: ttlExists_def ttl_index_def)

lemma ensure_collection_db:
  "db (ensure_collection sys v w) =
     (case map_of (db w) (log_collection_name v) of
        Some c \<Rightarrow> db w
      | None \<Rightarrow>
          db w @ [(log_collection_name v,
                   case capped_options v of
                     None \<Rightarrow> \<lparr>capped = False, coll_size = None, coll_max = None, indexes = [id_index]\<rparr>
                   | Some (sz, mx) \<Rightarrow>
                       \<lparr>capped = True, coll_size = Some sz, coll_max = Some mx, indexes = [id_index]\<rparr>)])"
  by (auto simp: ensure_collection_def listCollections_def createCollection_def Let_def
        filter_name_empty_iff split: option.splits prod.splits)

lemma ensure_collection_connect_error [simp]:
  "connect_error (ensure_collection sys v w) = connect_error w"
  by (auto simp: ensure_collection_def listCollections_def createCollection_def Let_def
        split: option.splits prod.splits)

lemma ensure_ttl_index_db:
  assumes "\<not> truthy_bool (log_capped v)" "log_expiration_days v = Some days" "days \<noteq> 0"
    and "map_of (db w) (log_collection_name v) = Some c"
  shows "fst (ensure_ttl_index sys v w) = Inr () \<and>
         db (snd (ensure_ttl_index sys v w)) =
           (if ttlExists (indexes c) then db w
            else map (\<lambda>(n, c). if n = log_collection_name v
                                  then (n, c\<lparr>indexes := indexes c @ [ttl_index days]\<rparr>) else (n, c)) (db w))"
  using assms
  by (simp add: ensure_ttl_index_def truthy_num_def collection_indexes_def createIndex_def Let_def)

lemma ensure_ttl_index_connect_error [simp]:
  "connect_error (snd (ensure_ttl_index sys v w)) = connect_error w"
  by (auto simp: ensure_ttl_index_def collection_indexes_def createIndex_def Let_def
        split: option.splits)


lemma map_add_index_absent:
  "map_of xs name = None \<Longrightarrow>
   map (\<lambda>(n, c). if n = name then (n, f c) else (n, c)) xs = xs"
  by (induction xs) (auto split: if_splits)

lemma map_of_snoc_absent:
  "map_of xs name = None \<Longrightarrow> map_of (xs @ [(name, c)]) name = Some c"
  by (induction xs) (auto split: if_splits)

lemma not_ttlExists_id_index: "\<not> ttlExists [id_index]"
  by (simp add: ttlExists_def id_index_def)

lemma capped_options_not_capped: "\<not> truthy_bool (log_capped v) \<Longrightarrow> capped_options v = None"
  by (simp add: capped_options_def)

lemma createLog_unfold:
  assumes "validate tenant = (v, [])"
    and "\<not> (truthy_bool (log_capped v) \<and> truthy_num (log_expiration_days v))"
  shows \<open>snd (createLog sys validate tenant w) =
     (case connect_error w of
        Some msg \<Rightarrow>
          (if isDebugging sys
           then sys_log ''error'' msg (sys_log ''debug'' msg (call_made (Connect (db_url v)) w))
           else call_made (Connect (db_url v)) w)
      | None \<Rightarrow>
          (case ensure_ttl_index sys v (ensure_collection sys v (call_made (Connect (db_url v)) w)) of
             (Inl err, w3) \<Rightarrow>
               (if isDebugging sys
                then sys_log ''error'' (message err) (sys_log ''debug'' (message err) w3)
                else w3)
           | (Inr u, w3) \<Rightarrow>
               (if isDebugging sys
                then sys_log ''info'' (''Logger created for "'' @ db_url v @ ''"'') w3
                else w3)))\<close>
  using assms
  by (auto simp: createLog_def createLog_try_def mongo_connect_def
        split: option.splits sum.splits prod.splits)

lemma createLog_connect_error:
  assumes "validate tenant = (v, [])"
    and "\<not> (truthy_bool (log_capped v) \<and> truthy_num (log_expiration_days v))"
  shows "connect_error (snd (createLog sys validate tenant w)) = connect_error w"
proof -
  have "\<And>w0. connect_error (snd (ensure_ttl_index sys v w0)) = connect_error w0"
    by simp
  then have e: "\<And>w0 r w3. ensure_ttl_index sys v w0 = (r, w3) \<Longrightarrow> connect_error w3 = connect_error w0"
    by (metis snd_conv)
  show ?thesis
    unfolding createLog_unfold [where validate = validate and tenant = tenant, OF assms]
    by (auto split: option.splits sum.splits prod.splits dest!: e)
qed

lemma createLog_ttl_db:
  assumes val: "validate tenant = (v, [])"
    and nc: "\<not> truthy_bool (log_capped v)"
    and d: "log_expiration_days v = Some days" "days \<noteq> 0"
    and conn: "connect_error w = None"
  shows "db (snd (createLog sys validate tenant w)) =
     (case map_of (db w) (log_collection_name v) of
        Some c \<Rightarrow>
          if ttlExists (indexes c) then db w
          else map (\<lambda>(n, c). if n = log_collection_name v
                                then (n, c\<lparr>indexes := indexes c @ [ttl_index days]\<rparr>) else (n, c)) (db w)
      | None \<Rightarrow>
          db w @ [(log_collection_name v,
                   \<lparr>capped = False, coll_size = None, coll_max = None,
                    indexes = [id_index, ttl_index days]\<rparr>)])"
proof -
  let ?name = "log_collection_name v"
  let ?w1 = "call_made (Connect (db_url v)) w"
  let ?w2 = "ensure_collection sys v ?w1"
  let ?new = "\<lparr>capped = False, coll_size = None, coll_max = None, indexes = [id_index]\<rparr>"
  have nc': "\<not> (truthy_bool (log_capped v) \<and> truthy_num (log_expiration_days v))"
    using nc by simp
  have u: "db (snd (createLog sys validate tenant w)) = db (snd (ensure_ttl_index sys v ?w2))"
    unfolding createLog_unfold [where validate = validate and tenant = tenant, OF val nc']
    using conn by (auto split: sum.splits prod.splits)
  show ?thesis
  proof (cases "map_of (db w) ?name")
    case None
    have w2: "db ?w2 = db w @ [(?name, ?new)]"
      using None capped_options_not_capped [OF nc] by (simp add: ensure_collection_db)
    have m: "map_of (db ?w2) ?name = Some ?new"
      using None by (simp add: w2 map_add_def)
    have "db (snd (ensure_ttl_index sys v ?w2)) =
            map (\<lambda>(n, c). if n = ?name
                  then (n, c\<lparr>indexes := indexes c @ [ttl_index days]\<rparr>) else (n, c)) (db ?w2)"
      using ensure_ttl_index_db [OF nc d m, of sys] not_ttlExists_id_index by simp
    also have "\<dots> = db w @ [(?name, ?new\<lparr>indexes := indexes ?new @ [ttl_index days]\<rparr>)]"
      using None by (simp add: w2 map_add_index_absent)
    finally show ?thesis using None u by simp
  next
    case (Some c)
    have w2: "db ?w2 = db w" using Some by (simp add: ensure_collection_db)
    have m: "map_of (db ?w2) ?name = Some c" using Some by (simp add: w2)
    show ?thesis
      using ensure_ttl_index_db [OF nc d m, of sys] Some u by (simp add: w2)
  qed
qed

lemma createLog_ttl_established:
  assumes val: "validate tenant = (v, [])"
    and nc: "\<not> truthy_bool (log_capped v)"
    and d: "log_expiration_days v = Some days" "days \<noteq> 0"
    and conn: "connect_error w = None"
  shows "\<exists>c. map_of (db (snd (createLog sys validate tenant w))) (log_collection_name v) = Some c \<and>
             ttlExists (indexes c)"
proof (cases "map_of (db w) (log_collection_name v)")
  case None
  then show ?thesis
    using ttlExists_ttl_index [of "[id_index]" days]
    by (simp add: createLog_ttl_db [where validate = validate and tenant = tenant, OF val nc d conn] map_add_def)
next
  case (Some c)
  then show ?thesis
    using ttlExists_ttl_index [of "indexes c" days]
    by (simp add: createLog_ttl_db [where validate = validate and tenant = tenant, OF val nc d conn] map_of_add_index)
qed

lemma createLog_db_connect_failed:
  assumes "validate tenant = (v, [])"
    and "\<not> (truthy_bool (log_capped v) \<and> truthy_num (log_expiration_days v))"
    and "connect_error w = Some msg"
  shows "db (snd (createLog sys validate tenant w)) = db w"
  unfolding createLog_unfold [where validate = validate and tenant = tenant, OF assms(1,2)] using assms(3) by simp


subsection \<open>Conflicting retention options\<close>

text \<open>
  C5.  For a configuration that the validation accepts, with \<open>log_capped\<close>
  true and \<open>log_expiration_days\<close> set (to a number other than zero, as the
  schema's minimum of 1 has it), \<open>createLog\<close> fails with the error
  \<^verbatim>\<open>Cannot use both capped and TTL options on the same collection.\<close> and
  leaves the world as it was: no call has reached the server, so the store was
  not connected to and no collection was created.
\<close>

theorem conflicting_retention_rejected_before_connect:
  assumes "validate tenant = (v, [])"
    and "log_capped v = Some True"
    and "log_expiration_days v = Some days"
    and "days \<noteq> 0"
  shows "createLog sys validate tenant w =
           (Inl (Error ''Cannot use both capped and TTL options on the same collection.''), w)"
  using assms by (simp add: createLog_def truthy_bool_def truthy_num_def)

theorem conflicting_retention_rejected_before_connect_witness:
  "example_validate conflicting_tenant = (conflicting_tenant, []) \<and>
   log_capped conflicting_tenant = Some True \<and>
   log_expiration_days conflicting_tenant = Some 30 \<and> (30::int) \<noteq> 0 \<and>
   createLog example_system example_validate conflicting_tenant example_world =
     (Inl (Error ''Cannot use both capped and TTL options on the same collection.''), example_world) \<and>
   calls example_world = [] \<and>
   map fst (db example_world) = [''users'', ''sessions'']"
proof -
  have a: "example_validate conflicting_tenant = (conflicting_tenant, [])"
    by (simp add: example_validate_def conflicting_tenant_def)
  have b: "log_capped conflicting_tenant = Some True"
    by (simp add: conflicting_tenant_def)
  have c: "log_expiration_days conflicting_tenant = Some 30"
    by (simp add: conflicting_tenant_def)
  have d: "(30::int) \<noteq> 0" by simp
  have e: "calls example_world = [] \<and> map fst (db example_world) = [''users'', ''sessions'']"
    by (simp add: example_world_def)
  show ?thesis
    using a b c d e
      conflicting_retention_rejected_before_connect
        [where validate = example_validate and tenant = conflicting_tenant, OF a b c d,
         of example_system example_world]
    by simp
qed

subsection \<open>The TTL index\<close>

text \<open>
  C9.  For a configuration that the validation accepts, with TTL requested and
  capped not: running \<open>createLog\<close> a second time leaves the database, and so
  every index of it, as the first run left it.  When the server can be
  connected to, the first run leaves the database as follows: if the log
  collection exists and has an index with \<^verbatim>\<open>key.timestamp = 1\<close> and the name
  \<^verbatim>\<open>timestamp_ttl\<close>, nothing changes; if it exists without such an index, the
  TTL index is added to it; if it does not exist, it is created uncapped and
  gets the TTL index after the default one.  The TTL index is keyed on
  \<^verbatim>\<open>timestamp\<close>, named \<^verbatim>\<open>timestamp_ttl\<close> and expires after the number of days
  times 86400 seconds.
\<close>

theorem createLog_ttl_index_idempotent:
  assumes val: "validate tenant = (v, [])"
    and nc: "\<not> truthy_bool (log_capped v)"
    and d: "log_expiration_days v = Some days" "days \<noteq> 0"
  shows "db (snd (createLog sys validate tenant (snd (createLog sys validate tenant w)))) =
           db (snd (createLog sys validate tenant w)) \<and>
         (connect_error w = None \<longrightarrow>
            db (snd (createLog sys validate tenant w)) =
              (case map_of (db w) (log_collection_name v) of
                 Some c \<Rightarrow>
                   if ttlExists (indexes c) then db w
                   else map (\<lambda>(n, c). if n = log_collection_name v
                                         then (n, c\<lparr>indexes := indexes c @ [ttl_index days]\<rparr>)
                                         else (n, c)) (db w)
               | None \<Rightarrow>
                   db w @ [(log_collection_name v,
                            \<lparr>capped = False, coll_size = None, coll_max = None,
                             indexes = [id_index, ttl_index days]\<rparr>)])) \<and>
         ttl_index days =
           \<lparr>idx_key = [(''timestamp'', 1)], idx_name = ''timestamp_ttl'',
            expireAfterSeconds = Some (days * 86400)\<rparr>"
proof -
  let ?w' = "snd (createLog sys validate tenant w)"
  have nc': "\<not> (truthy_bool (log_capped v) \<and> truthy_num (log_expiration_days v))"
    using nc by simp
  have ce: "connect_error ?w' = connect_error w"
    by (rule createLog_connect_error [where validate = validate and tenant = tenant, OF val nc'])
  have idem: "db (snd (createLog sys validate tenant ?w')) = db ?w'"
  proof (cases "connect_error w")
    case (Some msg)
    then have "connect_error ?w' = Some msg" using ce by simp
    then show ?thesis
      by (rule createLog_db_connect_failed [where validate = validate and tenant = tenant, OF val nc'])
  next
    case None
    then have conn': "connect_error ?w' = None" using ce by simp
    obtain c where c: "map_of (db ?w') (log_collection_name v) = Some c" "ttlExists (indexes c)"
      using createLog_ttl_established
        [where validate = validate and tenant = tenant, OF val nc d None, of sys]
      by blast
    show ?thesis
      using c by (simp add: createLog_ttl_db
            [where validate = validate and tenant = tenant, OF val nc d conn'])
  qed
  have closed: "connect_error w = None \<longrightarrow>
            db ?w' =
              (case map_of (db w) (log_collection_name v) of
                 Some c \<Rightarrow>
                   if ttlExists (indexes c) then db w
                   else map (\<lambda>(n, c). if n = log_collection_name v
                                         then (n, c\<lparr>indexes := indexes c @ [ttl_index days]\<rparr>)
                                         else (n, c)) (db w)
               | None \<Rightarrow>
                   db w @ [(log_collection_name v,
                            \<lparr>capped = False, coll_size = None, coll_max = None,
                             indexes = [id_index, ttl_index days]\<rparr>)])"
    using createLog_ttl_db [where validate = validate and tenant = tenant, OF val nc d]
    by blast
  have ix: "ttl_index days =
           \<lparr>idx_key = [(''timestamp'', 1)], idx_name = ''timestamp_ttl'',
            expireAfterSeconds = Some (days * 86400)\<rparr>"
    by (simp add: ttl_index_def)
  from idem closed ix show ?thesis by blast
qed

theorem createLog_ttl_index_idempotent_witness:
  "example_validate ttl_tenant = (ttl_tenant, []) \<and>
   \<not> truthy_bool (log_capped ttl_tenant) \<and>
   log_expiration_days ttl_tenant = Some 30 \<and> (30::int) \<noteq> 0 \<and>
   connect_error example_world = None \<and>
   map_of (db example_world) (log_collection_name ttl_tenant) = None \<and>
   db (snd (createLog example_system example_validate ttl_tenant example_world)) =
     db example_world @
       [(''logs'', \<lparr>capped = False, coll_size = None, coll_max = None,
                    indexes = [id_index,
                               \<lparr>idx_key = [(''timestamp'', 1)], idx_name = ''timestamp_ttl'',
                                expireAfterSeconds = Some 2592000\<rparr>]\<rparr>)] \<and>
   db (snd (createLog example_system example_validate ttl_tenant
             (snd (createLog example_system example_validate ttl_tenant example_world)))) =
     db (snd (createLog example_system example_validate ttl_tenant example_world))"
proof -
  have a: "example_validate ttl_tenant = (ttl_tenant, [])"
    by (simp add: example_validate_def ttl_tenant_def)
  have b: "\<not> truthy_bool (log_capped ttl_tenant)"
    by (simp add: truthy_bool_def ttl_tenant_def)
  have c: "log_expiration_days ttl_tenant = Some 30"
    by (simp add: ttl_tenant_def)
  have d: "(30::int) \<noteq> 0" by simp
  have e: "connect_error example_world = None"
    by (simp add: example_world_def)
  have f: "map_of (db example_world) (log_collection_name ttl_tenant) = None"
    by (simp add: example_world_def ttl_tenant_def)
  have n: "log_collection_name ttl_tenant = ''logs''"
    by (simp add: ttl_tenant_def)
  note t = createLog_ttl_index_idempotent
    [where validate = example_validate and tenant = ttl_tenant, OF a b c d,
     of example_system example_world]
  have g: "db (snd (createLog example_system example_validate ttl_tenant example_world)) =
     db example_world @
       [(''logs'', \<lparr>capped = False, coll_size = None, coll_max = None,
                    indexes = [id_index, ttl_index 30]\<rparr>)]"
    using t e f n by simp
  have h: "db (snd (createLog example_system example_validate ttl_tenant
             (snd (createLog example_system example_validate ttl_tenant example_world)))) =
     db (snd (createLog example_system example_validate ttl_tenant example_world))"
    using t by blast
  have i: "ttl_index 30 = \<lparr>idx_key = [(''timestamp'', 1)], idx_name = ''timestamp_ttl'',
                                expireAfterSeconds = Some 2592000\<rparr>"
    by (simp add: ttl_index_def)
  show ?thesis
    using a b c d e f h by (simp add: g i)
qed


section \<open>Properties of createDB\<close>

lemma drop_collection_effect:
  "drop_error (snd (drop_collection n w)) = drop_error w \<and>
   calls (snd (drop_collection n w)) = calls w @ [Drop n] \<and>
   db (snd (drop_collection n w)) =
     (if drop_error w n = None then filter (\<lambda>(k, c). k \<noteq> n) (db w) else db w)"
proof -
  have "map_of (db w) n = None \<Longrightarrow> filter (\<lambda>(k, c). k \<noteq> n) (db w) = db w"
    by (induction "db w" arbitrary: w) (auto simp: map_of_eq_None_iff image_iff intro!: filter_True)
  then show ?thesis
    by (auto simp: drop_collection_def Let_def split: option.splits)
qed


lemma drop_each_effect:
  "drop_error (drop_each ns w) = drop_error w \<and>
   calls (drop_each ns w) = calls w @ map Drop ns \<and>
   db (drop_each ns w) = filter (\<lambda>(k, c). k \<notin> set ns \<or> drop_error w k \<noteq> None) (db w)"
proof (induction ns arbitrary: w)
  case Nil
  then show ?case by simp
next
  case (Cons n ns)
  let ?w1 = "case drop_collection n w of
          (Inr u, w1) \<Rightarrow> sys_log ''info'' (''Dropped collection: '' @ n) w1
        | (Inl err, w1) \<Rightarrow>
            if message err \<noteq> ''ns not found'' \<and>
               \<not> occurs_in ''a background operation is currently running'' (message err)
            then sys_log ''warn'' (''Failed to drop collection '' @ n @ '': '' @ message err) w1
            else w1"
  have same: "drop_error ?w1 = drop_error (snd (drop_collection n w)) \<and>
              calls ?w1 = calls (snd (drop_collection n w)) \<and>
              db ?w1 = db (snd (drop_collection n w))"
    by (cases "drop_collection n w") (auto split: sum.splits)
  have de: "drop_error ?w1 = drop_error w"
    and ca: "calls ?w1 = calls w @ [Drop n]"
    and dbs: "db ?w1 = (if drop_error w n = None then filter (\<lambda>(k, c). k \<noteq> n) (db w) else db w)"
    using same drop_collection_effect [of n w] by simp_all
  have step: "drop_each (n # ns) w = drop_each ns ?w1" by simp
  have "db (drop_each ns ?w1) =
          filter (\<lambda>(k, c). k \<notin> set ns \<or> drop_error w k \<noteq> None) (db ?w1)"
    using Cons.IH [of ?w1] de by simp
  also have "\<dots> = filter (\<lambda>(k, c). k \<notin> set (n # ns) \<or> drop_error w k \<noteq> None) (db w)"
    unfolding dbs by (auto intro!: filter_cong)
  finally have 1: "db (drop_each (n # ns) w) =
      filter (\<lambda>(k, c). k \<notin> set (n # ns) \<or> drop_error w k \<noteq> None) (db w)"
    unfolding step .
  have 2: "drop_error (drop_each (n # ns) w) = drop_error w"
    unfolding step using Cons.IH [of ?w1] de by simp
  have 3: "calls (drop_each (n # ns) w) = calls w @ map Drop (n # ns)"
    unfolding step using Cons.IH [of ?w1] ca by simp
  from 1 2 3 show ?case by blast
qed

lemma dropAllCollections_effect:
  "calls (dropAllCollections w) = calls w @ Collections # map Drop (map fst (db w)) \<and>
   db (dropAllCollections w) = filter (\<lambda>(k, c). drop_error w k \<noteq> None) (db w)"
proof -
  have "filter (\<lambda>(k, c). k \<notin> set (map fst (db w)) \<or> drop_error w k \<noteq> None) (db w) =
        filter (\<lambda>(k, c). drop_error w k \<noteq> None) (db w)"
    by (rule filter_cong) (auto simp: image_iff)
  then show ?thesis
    using drop_each_effect [of "map fst (db w)" "call_made Collections w"]
    by (simp add: dropAllCollections_def)
qed

text \<open>
  C10.  For a tenant that the validation accepts and a server that can be
  connected to, \<open>createDB\<close> returns the connection.  In test mode it has by
  then listed the collections and called \<^verbatim>\<open>drop\<close> on every one of them, in
  order, right after connecting; the collections left are those whose drop
  failed, so that none is left when every drop succeeds.  Outside test mode
  the only call is the connect, and the database is as it was.
\<close>

theorem createDB_drops_collections_only_when_testing:
  assumes "validate tenant = (url, [])"
    and "connect_error w = None"
  shows "fst (createDB sys validate tenant w) = Inr (Connection url) \<and>
         (isTesting sys \<longrightarrow>
            calls (snd (createDB sys validate tenant w)) =
              calls w @ [Connect url, Collections] @ map Drop (map fst (db w)) \<and>
            db (snd (createDB sys validate tenant w)) =
              filter (\<lambda>(k, c). drop_error w k \<noteq> None) (db w)) \<and>
         (isTesting sys \<and> (\<forall>k \<in> set (map fst (db w)). drop_error w k = None) \<longrightarrow>
            db (snd (createDB sys validate tenant w)) = []) \<and>
         (\<not> isTesting sys \<longrightarrow>
            calls (snd (createDB sys validate tenant w)) = calls w @ [Connect url] \<and>
            db (snd (createDB sys validate tenant w)) = db w)"
proof -
  let ?w1 = "call_made (Connect url) w"
  let ?w2 = "if isDebugging sys
             then sys_log ''info'' (''Database connected to '' @ [CHR 0x22] @ url @ [CHR 0x22]) ?w1
             else ?w1"
  have r: "createDB sys validate tenant w =
           (Inr (Connection url), if isTesting sys then dropAllCollections ?w2 else ?w2)"
    using assms by (simp add: createDB_def createDB_try_def mongo_connect_def Let_def)
  have w2: "db ?w2 = db w" "calls ?w2 = calls w @ [Connect url]" "drop_error ?w2 = drop_error w"
    by simp_all
  have a: "fst (createDB sys validate tenant w) = Inr (Connection url)"
    by (simp add: r)
  have b: "isTesting sys \<longrightarrow>
            calls (snd (createDB sys validate tenant w)) =
              calls w @ [Connect url, Collections] @ map Drop (map fst (db w)) \<and>
            db (snd (createDB sys validate tenant w)) =
              filter (\<lambda>(k, c). drop_error w k \<noteq> None) (db w)"
    using dropAllCollections_effect [of ?w2] w2 by (simp add: r)
  have "(\<forall>k \<in> set (map fst (db w)). drop_error w k = None) \<longrightarrow>
        filter (\<lambda>(k, c). drop_error w k \<noteq> None) (db w) = []"
    by (auto simp: filter_empty_conv)
  with b have c: "isTesting sys \<and> (\<forall>k \<in> set (map fst (db w)). drop_error w k = None) \<longrightarrow>
            db (snd (createDB sys validate tenant w)) = []"
    by simp
  have d: "\<not> isTesting sys \<longrightarrow>
            calls (snd (createDB sys validate tenant w)) = calls w @ [Connect url] \<and>
            db (snd (createDB sys validate tenant w)) = db w"
    using w2 by (simp add: r)
  from a b c d show ?thesis by blast
qed

theorem createDB_drops_collections_only_when_testing_witness:
  "example_validate_url ''mongodb://localhost/app'' = (''mongodb://localhost/app'', []) \<and>
   connect_error example_world = None \<and>
   isTesting example_system \<and>
   drop_error example_world ''users'' = None \<and>
   drop_error example_world ''sessions'' = None \<and>
   map fst (db example_world) = [''users'', ''sessions''] \<and>
   fst (createDB example_system example_validate_url ''mongodb://localhost/app'' example_world) =
     Inr (Connection ''mongodb://localhost/app'') \<and>
   db (snd (createDB example_system example_validate_url ''mongodb://localhost/app'' example_world)) = [] \<and>
   calls (snd (createDB example_system example_validate_url ''mongodb://localhost/app'' example_world)) =
     [Connect ''mongodb://localhost/app'', Collections, Drop ''users'', Drop ''sessions''] \<and>
   \<not> isTesting (example_system\<lparr>isTesting := False\<rparr>) \<and>
   db (snd (createDB (example_system\<lparr>isTesting := False\<rparr>) example_validate_url
              ''mongodb://localhost/app'' example_world)) = db example_world"
proof -
  have a: "example_validate_url ''mongodb://localhost/app'' = (''mongodb://localhost/app'', [])"
    by (simp add: example_validate_url_def)
  have b: "connect_error example_world = None" by (simp add: example_world_def)
  have c: "isTesting example_system" by (simp add: example_system_def)
  have d: "\<forall>k \<in> set (map fst (db example_world)). drop_error example_world k = None"
    by (simp add: example_world_def)
  have e: "map fst (db example_world) = [''users'', ''sessions'']" "calls example_world = []"
    by (simp_all add: example_world_def)
  have f: "\<not> isTesting (example_system\<lparr>isTesting := False\<rparr>)" by simp
  note t1 = createDB_drops_collections_only_when_testing
    [where validate = example_validate_url and tenant = "''mongodb://localhost/app''",
     OF a b, of example_system]
  note t2 = createDB_drops_collections_only_when_testing
    [where validate = example_validate_url and tenant = "''mongodb://localhost/app''",
     OF a b, of "example_system\<lparr>isTesting := False\<rparr>"]
  have g: "fst (createDB example_system example_validate_url ''mongodb://localhost/app'' example_world) =
     Inr (Connection ''mongodb://localhost/app'')"
    using t1 by blast
  have h: "db (snd (createDB example_system example_validate_url ''mongodb://localhost/app'' example_world)) = []"
    using t1 c d by blast
  have i: "calls (snd (createDB example_system example_validate_url ''mongodb://localhost/app'' example_world)) =
     calls example_world @ [Connect ''mongodb://localhost/app'', Collections] @
       map Drop (map fst (db example_world))"
    using t1 c by blast
  have j: "db (snd (createDB (example_system\<lparr>isTesting := False\<rparr>) example_validate_url
              ''mongodb://localhost/app'' example_world)) = db example_world"
    using t2 f by blast
  have k: "drop_error example_world ''users'' = None" "drop_error example_world ''sessions'' = None"
    by (simp_all add: example_world_def)
  show ?thesis
    using a b c f g h j k by (simp add: i e)
qed

section \<open>Properties of the log methods\<close>

text \<open>
  C6 as stated, that a failing insert never raises to the caller of the log
  call and that the console line is written whether or not the insert
  succeeded, does not hold of \<open>log_info\<close>: on a connected log with console
  mirroring and a store whose insert fails, the call ends with the error of the
  insert and the console stays empty.
\<close>

theorem log_insert_failure_raises_counterexample:
  "logToConsole example_log \<and>
   log_info example_log [''server'', ''started''] 1000 failing_store =
     (Inl (Error ''connection lost''), failing_store) \<and>
   console failing_store = []"
  by (simp add: log_info_def log_method_def insertLog_def example_log_def failing_store_def)

text \<open>
  C6, amended.  For each of \<open>debug\<close>, \<open>error\<close>, \<open>info\<close>, \<open>log\<close>, \<open>trace\<close> and
  \<open>warn\<close>: when the insert fails, the call fails with the error of the insert
  and neither the stored entries nor the console change; when the log is not
  connected, the call fails with \<^verbatim>\<open>MongoLog is not connected to the database.\<close>
  and changes nothing; when the insert succeeds, one entry with the level, the
  joined message, empty metadata and the current time is stored, and the
  console line is written after it exactly when console mirroring is enabled.
  \<open>assert\<close> with a falsy expression behaves in the same three ways, with the
  level \<^verbatim>\<open>assert\<close> and a console line that carries the expression in front of
  the arguments; with a truthy expression it writes nothing to the store and
  only the console line, when console mirroring is enabled.
\<close>

theorem log_insert_failure_propagates:
  "(has_collection ml \<and> insert_error w = Some m \<longrightarrow>
      log_method level ml args now w = (Inl (Error m), w) \<and>
      log_assert ml False args now w = (Inl (Error m), w)) \<and>
   (\<not> has_collection ml \<longrightarrow>
      log_method level ml args now w =
        (Inl (Error ''MongoLog is not connected to the database.''), w) \<and>
      log_assert ml False args now w =
        (Inl (Error ''MongoLog is not connected to the database.''), w)) \<and>
   (has_collection ml \<and> insert_error w = None \<longrightarrow>
      log_method level ml args now w =
        (Inr (),
         w\<lparr>stored := stored w @
               [\<lparr>entry_level = level, entry_message = join '' '' args, entry_meta = [],
                 createdAt = now\<rparr>],
           console := console w @ (if logToConsole ml then [Line level args] else [])\<rparr>) \<and>
      log_assert ml False args now w =
        (Inr (),
         w\<lparr>stored := stored w @
               [\<lparr>entry_level = ''assert'', entry_message = join '' '' args, entry_meta = [],
                 createdAt = now\<rparr>],
           console := console w @ (if logToConsole ml then [Assert_line False args] else [])\<rparr>)) \<and>
   log_debug = log_method ''debug'' \<and> log_error = log_method ''error'' \<and>
   log_info = log_method ''info'' \<and> log_log = log_method ''log'' \<and>
   log_trace = log_method ''trace'' \<and> log_warn = log_method ''warn'' \<and>
   log_assert ml True args now w =
     (Inr (), w\<lparr>console := console w @ (if logToConsole ml then [Assert_line True args] else [])\<rparr>)"
  by (simp add: log_method_def insertLog_def super_log_def super_assert_def log_debug_def
      log_error_def log_info_def log_log_def log_trace_def log_warn_def log_assert_def)

theorem log_insert_failure_propagates_witness:
  "has_collection example_log \<and> insert_error failing_store = Some ''connection lost'' \<and>
   log_method ''warn'' example_log [''disk'', ''full''] 1000 failing_store =
     (Inl (Error ''connection lost''), failing_store) \<and>
   log_assert example_log False [''disk'', ''full''] 1000 failing_store =
     (Inl (Error ''connection lost''), failing_store) \<and>
   insert_error working_store = None \<and>
   log_method ''warn'' example_log [''disk'', ''full''] 1000 working_store =
     (Inr (),
      \<lparr>stored = [\<lparr>entry_level = ''warn'', entry_message = ''disk full'', entry_meta = [],
                   createdAt = 1000\<rparr>],
       insert_error = None,
       console = [Line ''warn'' [''disk'', ''full'']]\<rparr>) \<and>
   log_assert example_log False [''disk'', ''full''] 1000 working_store =
     (Inr (),
      \<lparr>stored = [\<lparr>entry_level = ''assert'', entry_message = ''disk full'', entry_meta = [],
                   createdAt = 1000\<rparr>],
       insert_error = None,
       console = [Assert_line False [''disk'', ''full'']]\<rparr>) \<and>
   \<not> has_collection (example_log\<lparr>has_collection := False\<rparr>) \<and>
   log_method ''warn'' (example_log\<lparr>has_collection := False\<rparr>) [''disk'', ''full''] 1000 working_store =
     (Inl (Error ''MongoLog is not connected to the database.''), working_store)"
proof -
  have a: "has_collection example_log" "logToConsole example_log"
    by (simp_all add: example_log_def)
  have b: "insert_error failing_store = Some ''connection lost''"
    by (simp add: failing_store_def)
  have c: "insert_error working_store = None" "stored working_store = []" "console working_store = []"
    by (simp_all add: working_store_def)
  have d: "\<not> has_collection (example_log\<lparr>has_collection := False\<rparr>)" by simp
  note t1 = log_insert_failure_propagates
    [where ml = example_log and w = failing_store and m = "''connection lost''"
       and level = "''warn''" and args = "[''disk'', ''full'']" and now = 1000]
  note t2 = log_insert_failure_propagates
    [where ml = example_log and w = working_store
       and level = "''warn''" and args = "[''disk'', ''full'']" and now = 1000]
  note t3 = log_insert_failure_propagates
    [where ml = "example_log\<lparr>has_collection := False\<rparr>" and w = working_store
       and level = "''warn''" and args = "[''disk'', ''full'']" and now = 1000]
  have e: "log_method ''warn'' example_log [''disk'', ''full''] 1000 failing_store =
     (Inl (Error ''connection lost''), failing_store)"
    using a b t1 by blast
  have e': "log_assert example_log False [''disk'', ''full''] 1000 failing_store =
     (Inl (Error ''connection lost''), failing_store)"
    using a b t1 by blast
  have f: "log_method ''warn'' example_log [''disk'', ''full''] 1000 working_store =
     (Inr (),
         working_store\<lparr>stored := stored working_store @
               [\<lparr>entry_level = ''warn'', entry_message = join '' '' [''disk'', ''full''], entry_meta = [],
                 createdAt = 1000\<rparr>],
           console := console working_store @
             (if logToConsole example_log then [Line ''warn'' [''disk'', ''full'']] else [])\<rparr>)"
    using a c t2 by blast
  have f': "log_assert example_log False [''disk'', ''full''] 1000 working_store =
     (Inr (),
         working_store\<lparr>stored := stored working_store @
               [\<lparr>entry_level = ''assert'', entry_message = join '' '' [''disk'', ''full''], entry_meta = [],
                 createdAt = 1000\<rparr>],
           console := console working_store @
             (if logToConsole example_log then [Assert_line False [''disk'', ''full'']] else [])\<rparr>)"
    using a c t2 by blast
  have g: "log_method ''warn'' (example_log\<lparr>has_collection := False\<rparr>) [''disk'', ''full''] 1000 working_store =
     (Inl (Error ''MongoLog is not connected to the database.''), working_store)"
    using d t3 by blast
  show ?thesis
    using a b c d e e' g by (simp add: f f')
qed

end
